theory Spec2Isabelle
  imports Complex_Main "HOL-Library.Multiset"
begin

section \<open>Campaign dispatch workflow (app/api/campaign/workflow/route.ts)\<close>

text \<open>
  The theory embeds the durable campaign workflow: the payload check, the bulk claim,
  the per-contact processing, the bounded worker pool, the result persister, the
  per-batch counter update and the completion step.  Timestamps are the ISO strings the
  code handles; the clock value \<open>now\<close> of each \<open>new Date().toISOString()\<close> is an
  argument of the function that reads it.
\<close>

subsection \<open>JavaScript values\<close>

text \<open>
  Values whose shape is decided at run time (the parsed response body, the fields of
  \<open>opts as any\<close>, the columns of a row) are JSON values extended with \<open>undefined\<close>.
  Numbers are the integers the provider sends as codes.  An object is an association
  list (the first binding of a key is the one read).
\<close>

datatype jsval =
    JUndefined
  | JNull
  | JBool bool
  | JNum int
  | JStr string
  | JArr "jsval list"
  | JObj "(string \<times> jsval) list"

fun truthy :: "jsval \<Rightarrow> bool" where
  "truthy JUndefined = False"
| "truthy JNull = False"
| "truthy (JBool b) = b"
| "truthy (JNum n) = (n \<noteq> 0)"
| "truthy (JStr s) = (s \<noteq> [])"
| "truthy (JArr xs) = True"
| "truthy (JObj kvs) = True"

fun nullish :: "jsval \<Rightarrow> bool" where
  "nullish JUndefined = True"
| "nullish JNull = True"
| "nullish v = False"

text \<open>\<open>a || b\<close>\<close>

definition js_or :: "jsval \<Rightarrow> jsval \<Rightarrow> jsval" where
  "js_or a b = (if truthy a then a else b)"

text \<open>
  Reading property \<open>k\<close> of a value that is neither \<open>null\<close> nor \<open>undefined\<close>.  The code
  reads named keys and the index \<open>0\<close> only.
\<close>

fun js_prop :: "jsval \<Rightarrow> string \<Rightarrow> jsval" where
  "js_prop (JObj kvs) k = (case map_of kvs k of Some v \<Rightarrow> v | None \<Rightarrow> JUndefined)"
| "js_prop (JArr xs) k =
     (if k = ''0'' then (case xs of [] \<Rightarrow> JUndefined | x # _ \<Rightarrow> x) else JUndefined)"
| "js_prop (JStr s) k =
     (if k = ''0'' then (case s of [] \<Rightarrow> JUndefined | c # _ \<Rightarrow> JStr [c]) else JUndefined)"
| "js_prop v k = JUndefined"

text \<open>\<open>v?.k\<close>\<close>

definition js_opt :: "jsval \<Rightarrow> string \<Rightarrow> jsval" where
  "js_opt v k = (if nullish v then JUndefined else js_prop v k)"

text \<open>
  \<open>String.prototype.trim\<close> removes the code points WhiteSpace and LineTerminator of
  ECMAScript at both ends: U+0009 to U+000D, U+0020, U+00A0, U+1680, U+2000 to U+200A,
  U+2028, U+2029, U+202F, U+205F, U+3000 and U+FEFF.  A string is the sequence of the
  bytes of its UTF-8 encoding here, so each of these code points is the byte sequence
  that encodes it.
\<close>

definition white_space :: "string list" where
  "white_space =
     [[CHR 0x09], [CHR 0x0A], [CHR 0x0B], [CHR 0x0C], [CHR 0x0D], [CHR 0x20],
      [CHR 0xC2, CHR 0xA0],
      [CHR 0xE1, CHR 0x9A, CHR 0x80],
      [CHR 0xE2, CHR 0x80, CHR 0x80], [CHR 0xE2, CHR 0x80, CHR 0x81],
      [CHR 0xE2, CHR 0x80, CHR 0x82], [CHR 0xE2, CHR 0x80, CHR 0x83],
      [CHR 0xE2, CHR 0x80, CHR 0x84], [CHR 0xE2, CHR 0x80, CHR 0x85],
      [CHR 0xE2, CHR 0x80, CHR 0x86], [CHR 0xE2, CHR 0x80, CHR 0x87],
      [CHR 0xE2, CHR 0x80, CHR 0x88], [CHR 0xE2, CHR 0x80, CHR 0x89],
      [CHR 0xE2, CHR 0x80, CHR 0x8A],
      [CHR 0xE2, CHR 0x80, CHR 0xA8], [CHR 0xE2, CHR 0x80, CHR 0xA9],
      [CHR 0xE2, CHR 0x80, CHR 0xAF],
      [CHR 0xE2, CHR 0x81, CHR 0x9F],
      [CHR 0xE3, CHR 0x80, CHR 0x80],
      [CHR 0xEF, CHR 0xBB, CHR 0xBF]]"

text \<open>The length of the white space code point that \<open>s\<close> starts with, 0 if there is none.\<close>

definition ws_at_start :: "string list \<Rightarrow> string \<Rightarrow> nat" where
  "ws_at_start tokens s =
     (case find (\<lambda>t. t \<noteq> [] \<and> take (length t) s = t) tokens of
        None \<Rightarrow> 0
      | Some t \<Rightarrow> length t)"

function drop_ws :: "string list \<Rightarrow> string \<Rightarrow> string" where
  "drop_ws tokens s =
     (if ws_at_start tokens s = 0 then s
      else drop_ws tokens (drop (ws_at_start tokens s) s))"
  by pat_completeness auto
termination
proof (relation "measure (\<lambda>(tokens, s). length s)")
  fix tokens :: "string list" and s :: string
  assume nz: "ws_at_start tokens s \<noteq> 0"
  then obtain t where f: "find (\<lambda>t. t \<noteq> [] \<and> take (length t) s = t) tokens = Some t"
    by (auto simp: ws_at_start_def split: option.splits)
  then have "t \<noteq> [] \<and> take (length t) s = t" by (auto simp: find_Some_iff)
  then have "s \<noteq> []" by auto
  then show "((tokens, drop (ws_at_start tokens s) s), (tokens, s))
      \<in> measure (\<lambda>(tokens, s). length s)"
    using nz by simp
qed simp

definition trim :: "string \<Rightarrow> string" where
  "trim s = rev (drop_ws (map rev white_space) (rev (drop_ws white_space s)))"

text \<open>
  What a \<open>throw\<close> carries: an \<open>Error\<close> with its message, one of the two errors the
  workflow builds itself, or a value that is not an \<open>Error\<close>.
\<close>

datatype exn =
    Error string
  | PayloadInvalid nat "(string \<times> string) list"
  | TemplateNotFound string
  | NonError

subsection \<open>Payload\<close>

record Contact =
  contactId :: "string option"
  phone :: string
  name :: string
  custom_fields :: "(string \<times> jsval) list option"
  email :: "string option"

text \<open>\<open>String(c.contactId)\<close> and \<open>String(c.contactId || '')\<close>\<close>

definition String_of :: "string option \<Rightarrow> string" where
  "String_of v = (case v of None \<Rightarrow> ''undefined'' | Some s \<Rightarrow> s)"

definition String_or_empty :: "string option \<Rightarrow> string" where
  "String_or_empty v = (case v of None \<Rightarrow> [] | Some s \<Rightarrow> s)"

text \<open>
  The hardening check of the handler:
  \<open>(contacts || []).filter((c) => !c.contactId || String(c.contactId).trim().length === 0)\<close>,
  and the sample of at most ten \<open>{phone, name}\<close> pairs put in the error.
\<close>

definition missingContactIds :: "Contact list \<Rightarrow> Contact list" where
  "missingContactIds contacts =
     filter (\<lambda>c. String_or_empty (contactId c) = [] \<or> length (trim (String_of (contactId c))) = 0)
       contacts"

definition payload_error :: "Contact list \<Rightarrow> exn option" where
  "payload_error contacts =
     (let missing = missingContactIds contacts
      in if length missing > 0
         then Some (PayloadInvalid (length missing) (map (\<lambda>c. (phone c, name c)) (take 10 missing)))
         else None)"

subsection \<open>Campaign rows and the completion step\<close>

datatype CampaignStatus = DRAFT | SCHEDULED | SENDING | COMPLETED | PAUSED | FAILED

text \<open>
  The campaign as \<open>campaignDb.getById\<close> returns it.  The counters are JavaScript numbers
  holding integers; a timestamp that is unset is \<open>None\<close>.
\<close>

record Campaign =
  status :: CampaignStatus
  recipients :: int
  sent :: int
  failed :: int
  skipped :: int
  startedAt :: "string option"
  firstDispatchAt :: "string option"
  lastSentAt :: "string option"
  completedAt :: "string option"

text \<open>
  The object handed to \<open>campaignDb.updateStatus\<close>: each key of the object literal is one
  assignment, in the order of the source.
\<close>

datatype CampaignAssign =
    SetStatus CampaignStatus
  | SetStartedAt "string option"
  | SetCompletedAt "string option"
  | SetSent int
  | SetFailed int
  | SetSkipped int
  | SetFirstDispatchAt "string option"
  | SetLastSentAt "string option"

text \<open>
  The step \<open>complete-campaign\<close>: \<open>finalStatus\<close> starts as COMPLETED and becomes FAILED when
  the campaign was read and \<open>(failed + skipped) === recipients && recipients > 0\<close>; the
  update carries the status and the completion time.
\<close>

definition finalStatus :: "Campaign option \<Rightarrow> CampaignStatus" where
  "finalStatus campaign =
     (case campaign of
        None \<Rightarrow> COMPLETED
      | Some c \<Rightarrow>
          if failed c + skipped c = recipients c \<and> recipients c > 0 then FAILED
          else COMPLETED)"

definition complete_campaign :: "string \<Rightarrow> Campaign option \<Rightarrow> CampaignAssign list" where
  "complete_campaign now campaign = [SetStatus (finalStatus campaign), SetCompletedAt (Some now)]"

subsection \<open>The bulk claim\<close>

text \<open>
  What awaiting a Supabase query gives: the promise rejects, or it resolves to
  \<open>{ data, error }\<close>, where \<open>error\<close> is \<open>null\<close> or an error object with a message.
\<close>

datatype 'a supabase = Rejects exn | Resolves "'a option" "string option"

text \<open>
  \<open>bulkClaimPendingForSend\<close>.  \<open>query ids\<close> stands for the conditional update
  \<open>update({status: 'sending', ...}).eq('campaign_id', campaignId).eq('status', 'pending')
  .in('contact_id', ids).select('contact_id')\<close> and gives the \<open>contact_id\<close> of each row it
  returns.  The ids are trimmed, the empty ones dropped, duplicates removed keeping the
  first occurrence.
\<close>

definition claim_ids :: "string list \<Rightarrow> string list" where
  "claim_ids contactIds = rev (remdups (rev (filter (\<lambda>s. s \<noteq> []) (map trim contactIds))))"

definition bulkClaimPendingForSend ::
  "string \<Rightarrow> (string list \<Rightarrow> string list supabase) \<Rightarrow> string list
     \<Rightarrow> exn + (string option \<times> string set)" where
  "bulkClaimPendingForSend now query contactIds =
     (let ids = claim_ids contactIds
      in if length ids = 0 then Inr (None, {})
         else (case query ids of
                 Rejects e \<Rightarrow> Inl e
               | Resolves data error \<Rightarrow>
                   (case error of
                      Some msg \<Rightarrow> Inr (None, {})
                    | None \<Rightarrow>
                        (let claimedIds = set (case data of None \<Rightarrow> [] | Some rows \<Rightarrow> rows)
                         in Inr (if claimedIds \<noteq> {} then Some now else None, claimedIds)))))"

subsection \<open>Outcomes of a batch\<close>

datatype OutcomeStatus = St_sent | St_failed | St_skipped

record ContactWriteOpts =
  sendingAt :: jsval
  messageId :: jsval
  error :: jsval
  errorCode :: jsval
  errorTitle :: jsval
  errorDetails :: jsval
  errorFbtraceId :: jsval
  errorSubcode :: jsval
  errorHref :: jsval
  skipCode :: jsval
  skipReason :: jsval
  traceId :: jsval

definition no_opts :: ContactWriteOpts where
  "no_opts = \<lparr>sendingAt = JUndefined, messageId = JUndefined, error = JUndefined,
     errorCode = JUndefined, errorTitle = JUndefined, errorDetails = JUndefined,
     errorFbtraceId = JUndefined, errorSubcode = JUndefined, errorHref = JUndefined,
     skipCode = JUndefined, skipReason = JUndefined, traceId = JUndefined\<rparr>"

record PendingWriteOp =
  op_contact :: Contact
  op_status :: OutcomeStatus
  op_opts :: ContactWriteOpts

text \<open>The columns of \<open>campaign_contacts\<close> that the workflow writes.\<close>

datatype column =
    Col_campaign_id | Col_contact_id | Col_trace_id | Col_status | Col_sending_at
  | Col_sent_at | Col_failed_at | Col_skipped_at | Col_message_id | Col_error
  | Col_skip_code | Col_skip_reason | Col_failure_code | Col_failure_reason
  | Col_failure_title | Col_failure_details | Col_failure_fbtrace_id
  | Col_failure_subcode | Col_failure_href

text \<open>
  Calls that leave the process, in the order they are made: the claim query, the request
  to the provider for one contact, the two throttle signals, the bulk upsert with its
  rows, the per-row update of the fallback path and the campaign update.
\<close>

datatype effect =
    InitCampaign "CampaignAssign list"
  | ClaimQuery "string list"
  | MetaSend Contact
  | ThroughputExceeded
  | StableBatch
  | UpsertContacts "(column \<times> jsval) list list"
  | UpdateContact string "(column \<times> jsval) list"
  | UpdateCampaign "CampaignAssign list"

fun is_MetaSend :: "effect \<Rightarrow> bool" where
  "is_MetaSend (MetaSend c) = True"
| "is_MetaSend e = False"

fun is_ThroughputExceeded :: "effect \<Rightarrow> bool" where
  "is_ThroughputExceeded ThroughputExceeded = True"
| "is_ThroughputExceeded e = False"

text \<open>The variables of one \<open>send-batch\<close> step that the workers share.\<close>

record BatchState =
  writeOps :: "PendingWriteOp list"
  sentCount :: int
  failedCount :: int
  skippedCount :: int
  sawThroughput429 :: bool
  firstDispatchAtInBatch :: "string option"
  lastSentAtInBatch :: "string option"
  effects :: "effect list"

definition batch_start :: BatchState where
  "batch_start = \<lparr>writeOps = [], sentCount = 0, failedCount = 0, skippedCount = 0,
     sawThroughput429 = False, firstDispatchAtInBatch = None, lastSentAtInBatch = None,
     effects = []\<rparr>"

subsection \<open>Processing one contact\<close>

text \<open>
  \<open>precheckContactForTemplate\<close> (lib/whatsapp/template-contract) answers
  \<open>{ok: true, normalizedPhone, values}\<close> or \<open>{ok: false, skipCode, reason}\<close>.
\<close>

datatype Precheck = PrecheckOk string | PrecheckSkip string string

text \<open>
  What the collaborators answer for one contact: the two clock readings, the limiter,
  the guard-rail, the payload builder, the request (\<open>fetch\<close> rejects, or gives
  \<open>response.ok\<close> and what \<open>response.json()\<close> gives), the text
  \<open>(#code) message\<close> built with \<open>getUserFriendlyMessageForMetaError\<close>, and
  \<open>recordThroughputExceeded\<close>.  \<open>None\<close> in an \<open>exn option\<close> is a call that returns.
\<close>

record ContactIO =
  io_sendingAtIso :: string
  io_acquire :: "exn option"
  io_precheck :: "exn + Precheck"
  io_payload :: "exn option"
  io_fetch :: "exn + (bool \<times> (exn + jsval))"
  io_sentAtIso :: string
  io_errorWithCode :: string
  io_recordThroughputExceeded :: "exn option"

text \<open>What the closure \<open>processContact\<close> captures from its batch.\<close>

record BatchCtx =
  ctx_traceId :: string
  ctx_adaptiveEnabled :: bool
  ctx_limiter :: bool
  ctx_claimedIds :: "string set"
  ctx_optOutContactIds :: "string set"
  ctx_suppressionsByPhone :: "string \<Rightarrow> string option option"
  ctx_io :: "Contact \<Rightarrow> ContactIO"

definition pushWriteOp :: "PendingWriteOp \<Rightarrow> BatchState \<Rightarrow> BatchState" where
  "pushWriteOp op st = st\<lparr>writeOps := writeOps st @ [op]\<rparr>"

text \<open>
  The three skip exits push a \<open>skipped\<close> outcome and count it.  Modelled from the spec:
  the progress reporter (lib/realtime-broadcast-server, absent) is best-effort, so
  \<open>progress.bump\<close> changes nothing here and does not throw; \<open>emitWorkflowTrace\<close> catches
  its own failures.
\<close>

definition skip_contact ::
  "BatchCtx \<Rightarrow> Contact \<Rightarrow> string \<Rightarrow> string \<Rightarrow> BatchState \<Rightarrow> BatchState" where
  "skip_contact ctx contact code reason st =
     (let st1 = pushWriteOp
            \<lparr>op_contact = contact, op_status = St_skipped,
             op_opts = no_opts\<lparr>sendingAt := JStr (io_sendingAtIso (ctx_io ctx contact)),
                                skipCode := JStr code, skipReason := JStr reason,
                                traceId := JStr (ctx_traceId ctx)\<rparr>\<rparr> st
      in st1\<lparr>skippedCount := skippedCount st1 + 1\<rparr>)"

definition type_error :: "string \<Rightarrow> exn" where
  "type_error k =
     Error (''Cannot read properties of null (reading '' @ [CHR 0x27] @ k @ [CHR 0x27] @ '')'')"

text \<open>The \<open>else\<close> branch of the classification: the response is an error response.\<close>

definition send_failed ::
  "BatchCtx \<Rightarrow> Contact \<Rightarrow> jsval \<Rightarrow> BatchState \<Rightarrow> exn option \<times> BatchState" where
  "send_failed ctx contact data st =
     (if nullish data then (Some (type_error ''error''), st)
      else
        (let io = ctx_io ctx contact;
             err = js_prop data ''error'';
             errorCode = js_or (js_opt err ''code'') (JNum 0);
             metaTitle = js_or (js_or (js_opt err ''error_user_title'') (js_opt err ''type'')) (JStr []);
             metaMessage = js_or (js_or (js_opt err ''error_user_msg'') (js_opt err ''message''))
                             (JStr ''Unknown error'');
             metaDetails = js_or (js_opt (js_opt err ''error_data'') ''details'') (JStr []);
             metaFbtraceId = js_or (js_opt err ''fbtrace_id'') (JStr []);
             metaSubcode = (case js_opt err ''error_subcode'' of JNum n \<Rightarrow> JNum n | _ \<Rightarrow> JUndefined);
             metaHref = js_or (js_opt err ''href'') (JStr []);
             decrease = (ctx_adaptiveEnabled ctx \<and> errorCode = JNum 130429 \<and> \<not> sawThroughput429 st);
             st1 = (if decrease
                    then st\<lparr>sawThroughput429 := True, effects := effects st @ [ThroughputExceeded]\<rparr>
                    else st)
         in case (if decrease then io_recordThroughputExceeded io else None) of
              Some e \<Rightarrow> (Some e, st1)
            | None \<Rightarrow>
                (let st2 = pushWriteOp
                       \<lparr>op_contact = contact, op_status = St_failed,
                        op_opts = no_opts\<lparr>sendingAt := JStr (io_sendingAtIso io),
                                           error := JStr (io_errorWithCode io),
                                           errorCode := errorCode,
                                           errorTitle := js_or metaTitle JUndefined,
                                           errorDetails := js_or (js_or metaDetails metaMessage) JUndefined,
                                           errorFbtraceId := js_or metaFbtraceId JUndefined,
                                           errorSubcode := metaSubcode,
                                           errorHref := js_or metaHref JUndefined,
                                           traceId := JStr (ctx_traceId ctx)\<rparr>\<rparr> st1
                 in (None, st2\<lparr>failedCount := failedCount st2 + 1\<rparr>))))"

text \<open>
  \<open>if (response.ok && data.messages?.[0]?.id) { ... } else { ... }\<close>:
  \<open>data.messages\<close> is read only when \<open>response.ok\<close> holds, and reading it from \<open>null\<close>
  throws.
\<close>

definition send_condition :: "bool \<Rightarrow> jsval \<Rightarrow> exn + bool" where
  "send_condition ok data =
     (if ok
      then (if nullish data then Inl (type_error ''messages'')
            else Inr (truthy (js_opt (js_opt (js_prop data ''messages'') ''0'') ''id'')))
      else Inr False)"

definition classify_response ::
  "BatchCtx \<Rightarrow> Contact \<Rightarrow> bool \<Rightarrow> jsval \<Rightarrow> BatchState \<Rightarrow> exn option \<times> BatchState" where
  "classify_response ctx contact ok data st =
     (case send_condition ok data of
        Inl e \<Rightarrow> (Some e, st)
      | Inr True \<Rightarrow>
          (let io = ctx_io ctx contact;
               messageId = js_prop (js_prop (js_prop data ''messages'') ''0'') ''id'';
               st1 = pushWriteOp
                      \<lparr>op_contact = contact, op_status = St_sent,
                       op_opts = no_opts\<lparr>sendingAt := JStr (io_sendingAtIso io),
                                          messageId := messageId,
                                          traceId := JStr (ctx_traceId ctx)\<rparr>\<rparr> st;
               st2 = st1\<lparr>lastSentAtInBatch := Some (io_sentAtIso io)\<rparr>
           in (None, st2\<lparr>sentCount := sentCount st2 + 1\<rparr>))
      | Inr False \<Rightarrow> send_failed ctx contact data st)"

text \<open>
  The body of the \<open>try\<close> for a claimed contact: the exception that leaves it, if any, and
  the shared variables at that point.
\<close>

definition opt_out_reason :: string where
  "opt_out_reason = ''Contato opt-out (n'' @ [CHR 0xC3, CHR 0xA3] @ ''o quer receber mensagens).''"

definition suppressed_reason :: "string option \<Rightarrow> string" where
  "suppressed_reason reason =
     ''Telefone suprimido globalmente'' @
       (case reason of None \<Rightarrow> [] | Some r \<Rightarrow> if r \<noteq> [] then '': '' @ r else [])"

definition try_contact :: "BatchCtx \<Rightarrow> Contact \<Rightarrow> BatchState \<Rightarrow> exn option \<times> BatchState" where
  "try_contact ctx contact st =
     (let io = ctx_io ctx contact
      in case (if ctx_limiter ctx then io_acquire io else None) of
           Some e \<Rightarrow> (Some e, st)
         | None \<Rightarrow>
             (case io_precheck io of
                Inl e \<Rightarrow> (Some e, st)
              | Inr (PrecheckSkip code reason) \<Rightarrow> (None, skip_contact ctx contact code reason st)
              | Inr (PrecheckOk normalizedPhone) \<Rightarrow>
                  if String_of (contactId contact) \<in> ctx_optOutContactIds ctx
                  then (None, skip_contact ctx contact ''OPT_OUT'' opt_out_reason st)
                  else (case ctx_suppressionsByPhone ctx normalizedPhone of
                          Some reason \<Rightarrow>
                            (None, skip_contact ctx contact ''SUPPRESSED'' (suppressed_reason reason) st)
                        | None \<Rightarrow>
                            (case io_payload io of
                               Some e \<Rightarrow> (Some e, st)
                             | None \<Rightarrow>
                                 (let st1 = st\<lparr>effects := effects st @ [MetaSend contact]\<rparr>
                                  in case io_fetch io of
                                       Inl e \<Rightarrow> (Some e, st1)
                                     | Inr (ok, body) \<Rightarrow>
                                         (case body of
                                            Inl e \<Rightarrow> (Some e, st1)
                                          | Inr data \<Rightarrow> classify_response ctx contact ok data st1))))))"

text \<open>
  The \<open>catch\<close> of \<open>processContact\<close>:
  \<open>error instanceof Error ? error.message : 'Erro desconhecido'\<close>, then one \<open>failed\<close>
  outcome.  The two errors that the workflow builds itself are thrown outside
  \<open>processContact\<close> and never reach this \<open>catch\<close>; their message is abbreviated here.
\<close>

fun error_message :: "exn \<Rightarrow> string" where
  "error_message (Error msg) = msg"
| "error_message (PayloadInvalid n sample) = ''Payload invalido''"
| "error_message (TemplateNotFound t) = ''Template '' @ t"
| "error_message NonError = ''Erro desconhecido''"

definition catch_contact :: "BatchCtx \<Rightarrow> Contact \<Rightarrow> exn \<Rightarrow> BatchState \<Rightarrow> BatchState" where
  "catch_contact ctx contact e st =
     (let errorMsg = error_message e;
          st1 = pushWriteOp
                 \<lparr>op_contact = contact, op_status = St_failed,
                  op_opts = no_opts\<lparr>sendingAt := JStr (io_sendingAtIso (ctx_io ctx contact)),
                                     error := JStr errorMsg,
                                     errorTitle := JStr ''Contact exception'',
                                     errorDetails := JStr errorMsg,
                                     traceId := JStr (ctx_traceId ctx)\<rparr>\<rparr> st
      in st1\<lparr>failedCount := failedCount st1 + 1\<rparr>)"

text \<open>
  One call of \<open>processContact\<close> from its first statement to its return, as a function of
  the shared variables, for a call during which no other worker touches them.  The pool
  below does not use it: there the calls are cut at their awaits and interleave.
\<close>

definition processContact :: "BatchCtx \<Rightarrow> Contact \<Rightarrow> BatchState \<Rightarrow> BatchState" where
  "processContact ctx contact st =
     (if String_of (contactId contact) \<notin> ctx_claimedIds ctx then st
      else (case try_contact ctx contact st of
              (None, st1) \<Rightarrow> st1
            | (Some e, st1) \<Rightarrow> catch_contact ctx contact e st1))"

subsection \<open>The worker pool\<close>

text \<open>
  \<open>Math.max(1, Math.min(50, Math.floor(rawConcurrency)))\<close> when the number is finite,
  \<open>1\<close> otherwise; \<open>None\<close> is a number that is not finite.
\<close>

definition concurrency_of :: "real option \<Rightarrow> nat" where
  "concurrency_of rawConcurrency =
     (case rawConcurrency of
        None \<Rightarrow> 1
      | Some r \<Rightarrow> nat (max 1 (min 50 \<lfloor>r\<rfloor>)))"

definition workerCount :: "nat \<Rightarrow> Contact list \<Rightarrow> nat" where
  "workerCount concurrency batch = min concurrency (length batch)"

subsection \<open>The segments of processContact\<close>

text \<open>
  \<open>processContact\<close> is an async function: at each \<open>await\<close> it is suspended and the other
  workers may run.  The places where it can be suspended, each with what the
  continuation needs.  Consecutive awaits with no access to the shared variables in
  between are one place: the trace of a throttle decrease and the trace
  \<open>meta_send_fail\<close>; \<open>maybeAutoSuppressByFailure\<close> and its trace; the floor delay after the
  last counter increment.
\<close>

datatype suspension =
    At_acquire
  | At_skip_trace
  | At_request_trace
  | At_fetch
  | At_json bool "exn + jsval"
  | At_sent_trace
  | At_throughput jsval
  | At_fail_trace jsval
  | At_auto_suppress
  | At_catch_trace exn

text \<open>The outcomes pushed, as the object literals of the four kinds of \<open>pushWriteOp\<close> call.\<close>

definition skipped_outcome :: "BatchCtx \<Rightarrow> Contact \<Rightarrow> string \<Rightarrow> string \<Rightarrow> PendingWriteOp" where
  "skipped_outcome ctx contact code reason =
     \<lparr>op_contact = contact, op_status = St_skipped,
      op_opts = no_opts\<lparr>sendingAt := JStr (io_sendingAtIso (ctx_io ctx contact)),
                         skipCode := JStr code, skipReason := JStr reason,
                         traceId := JStr (ctx_traceId ctx)\<rparr>\<rparr>"

definition sent_outcome :: "BatchCtx \<Rightarrow> Contact \<Rightarrow> jsval \<Rightarrow> PendingWriteOp" where
  "sent_outcome ctx contact data =
     \<lparr>op_contact = contact, op_status = St_sent,
      op_opts = no_opts\<lparr>sendingAt := JStr (io_sendingAtIso (ctx_io ctx contact)),
                         messageId := js_prop (js_prop (js_prop data ''messages'') ''0'') ''id'',
                         traceId := JStr (ctx_traceId ctx)\<rparr>\<rparr>"

definition error_code :: "jsval \<Rightarrow> jsval" where
  "error_code data = js_or (js_opt (js_prop data ''error'') ''code'') (JNum 0)"

definition failed_outcome :: "BatchCtx \<Rightarrow> Contact \<Rightarrow> jsval \<Rightarrow> PendingWriteOp" where
  "failed_outcome ctx contact data =
     (let io = ctx_io ctx contact;
          err = js_prop data ''error'';
          metaTitle = js_or (js_or (js_opt err ''error_user_title'') (js_opt err ''type'')) (JStr []);
          metaMessage = js_or (js_or (js_opt err ''error_user_msg'') (js_opt err ''message''))
                          (JStr ''Unknown error'');
          metaDetails = js_or (js_opt (js_opt err ''error_data'') ''details'') (JStr []);
          metaFbtraceId = js_or (js_opt err ''fbtrace_id'') (JStr []);
          metaSubcode = (case js_opt err ''error_subcode'' of JNum n \<Rightarrow> JNum n | _ \<Rightarrow> JUndefined);
          metaHref = js_or (js_opt err ''href'') (JStr [])
      in \<lparr>op_contact = contact, op_status = St_failed,
          op_opts = no_opts\<lparr>sendingAt := JStr (io_sendingAtIso io),
                             error := JStr (io_errorWithCode io),
                             errorCode := error_code data,
                             errorTitle := js_or metaTitle JUndefined,
                             errorDetails := js_or (js_or metaDetails metaMessage) JUndefined,
                             errorFbtraceId := js_or metaFbtraceId JUndefined,
                             errorSubcode := metaSubcode,
                             errorHref := js_or metaHref JUndefined,
                             traceId := JStr (ctx_traceId ctx)\<rparr>\<rparr>)"

definition caught_outcome :: "BatchCtx \<Rightarrow> Contact \<Rightarrow> exn \<Rightarrow> PendingWriteOp" where
  "caught_outcome ctx contact e =
     \<lparr>op_contact = contact, op_status = St_failed,
      op_opts = no_opts\<lparr>sendingAt := JStr (io_sendingAtIso (ctx_io ctx contact)),
                         error := JStr (error_message e),
                         errorTitle := JStr ''Contact exception'',
                         errorDetails := JStr (error_message e),
                         traceId := JStr (ctx_traceId ctx)\<rparr>\<rparr>"

text \<open>
  Each function below is the code run without suspension from one place to the next:
  it gives the place where the call is suspended next, or \<open>None\<close> when \<open>processContact\<close>
  has returned, and the shared variables as it leaves them.  An exception enters the
  \<open>catch\<close>, which is suspended at its trace before it pushes anything.

  From the guard-rail to the first await after it.
\<close>

definition guard_contact :: "BatchCtx \<Rightarrow> Contact \<Rightarrow> BatchState \<Rightarrow> suspension option \<times> BatchState" where
  "guard_contact ctx contact st =
     (case io_precheck (ctx_io ctx contact) of
        Inl e \<Rightarrow> (Some (At_catch_trace e), st)
      | Inr (PrecheckSkip code reason) \<Rightarrow>
          (Some At_skip_trace, pushWriteOp (skipped_outcome ctx contact code reason) st)
      | Inr (PrecheckOk normalizedPhone) \<Rightarrow>
          if String_of (contactId contact) \<in> ctx_optOutContactIds ctx
          then (Some At_skip_trace,
                pushWriteOp (skipped_outcome ctx contact ''OPT_OUT'' opt_out_reason) st)
          else (case ctx_suppressionsByPhone ctx normalizedPhone of
                  Some reason \<Rightarrow>
                    (Some At_skip_trace,
                     pushWriteOp (skipped_outcome ctx contact ''SUPPRESSED'' (suppressed_reason reason)) st)
                | None \<Rightarrow>
                    (case io_payload (ctx_io ctx contact) of
                       Some e \<Rightarrow> (Some (At_catch_trace e), st)
                     | None \<Rightarrow> (Some At_request_trace, st))))"

text \<open>From the call of \<open>processContact\<close> to its first await.\<close>

definition begin_contact :: "BatchCtx \<Rightarrow> Contact \<Rightarrow> BatchState \<Rightarrow> suspension option \<times> BatchState" where
  "begin_contact ctx contact st =
     (if String_of (contactId contact) \<notin> ctx_claimedIds ctx then (None, st)
      else if ctx_limiter ctx then (Some At_acquire, st)
      else guard_contact ctx contact st)"

text \<open>The classification of a parsed response, up to the await that follows.\<close>

definition classify_segment ::
  "BatchCtx \<Rightarrow> Contact \<Rightarrow> bool \<Rightarrow> jsval \<Rightarrow> BatchState \<Rightarrow> suspension option \<times> BatchState" where
  "classify_segment ctx contact ok data st =
     (case send_condition ok data of
        Inl e \<Rightarrow> (Some (At_catch_trace e), st)
      | Inr True \<Rightarrow>
          (Some At_sent_trace,
           (pushWriteOp (sent_outcome ctx contact data) st)
             \<lparr>lastSentAtInBatch := Some (io_sentAtIso (ctx_io ctx contact))\<rparr>)
      | Inr False \<Rightarrow>
          if nullish data then (Some (At_catch_trace (type_error ''error'')), st)
          else if ctx_adaptiveEnabled ctx \<and> error_code data = JNum 130429 \<and> \<not> sawThroughput429 st
          then (Some (At_throughput data),
                st\<lparr>sawThroughput429 := True, effects := effects st @ [ThroughputExceeded]\<rparr>)
          else (Some (At_fail_trace data), st))"

text \<open>The continuation from each place.\<close>

fun resume :: "BatchCtx \<Rightarrow> Contact \<Rightarrow> suspension \<Rightarrow> BatchState \<Rightarrow> suspension option \<times> BatchState" where
  "resume ctx contact At_acquire st =
     (case io_acquire (ctx_io ctx contact) of
        Some e \<Rightarrow> (Some (At_catch_trace e), st)
      | None \<Rightarrow> guard_contact ctx contact st)"
| "resume ctx contact At_skip_trace st = (None, st\<lparr>skippedCount := skippedCount st + 1\<rparr>)"
| "resume ctx contact At_request_trace st =
     (Some At_fetch, st\<lparr>effects := effects st @ [MetaSend contact]\<rparr>)"
| "resume ctx contact At_fetch st =
     (case io_fetch (ctx_io ctx contact) of
        Inl e \<Rightarrow> (Some (At_catch_trace e), st)
      | Inr (ok, body) \<Rightarrow> (Some (At_json ok body), st))"
| "resume ctx contact (At_json ok body) st =
     (case body of
        Inl e \<Rightarrow> (Some (At_catch_trace e), st)
      | Inr data \<Rightarrow> classify_segment ctx contact ok data st)"
| "resume ctx contact At_sent_trace st = (None, st\<lparr>sentCount := sentCount st + 1\<rparr>)"
| "resume ctx contact (At_throughput data) st =
     (case io_recordThroughputExceeded (ctx_io ctx contact) of
        Some e \<Rightarrow> (Some (At_catch_trace e), st)
      | None \<Rightarrow> (Some (At_fail_trace data), st))"
| "resume ctx contact (At_fail_trace data) st =
     (Some At_auto_suppress, pushWriteOp (failed_outcome ctx contact data) st)"
| "resume ctx contact At_auto_suppress st = (None, st\<lparr>failedCount := failedCount st + 1\<rparr>)"
| "resume ctx contact (At_catch_trace e) st =
     (let st1 = pushWriteOp (caught_outcome ctx contact e) st
      in (None, st1\<lparr>failedCount := failedCount st1 + 1\<rparr>))"

text \<open>
  The pool: the shared cursor \<open>nextIndex\<close>, the workers whose loop has returned, for each
  worker the contact it is processing and the place where that call is suspended
  (\<open>None\<close> for a worker at the top of its loop), the calls \<open>processContact(batch[idx])\<close> made
  so far as pairs (worker, idx), and the shared variables of the batch.
\<close>

record PoolState =
  nextIndex :: nat
  returned :: "nat set"
  running :: "nat \<Rightarrow> (Contact \<times> suspension) option"
  pulls :: "(nat \<times> nat) list"
  shared :: BatchState

text \<open>
  One turn of worker \<open>w\<close>: the code it runs from where it is suspended to its next
  \<open>await\<close>.  At the top of its loop that is \<open>const idx = nextIndex; nextIndex += 1;
  if (idx >= batch.length) return; await processContact(batch[idx])\<close> up to the first
  await inside the call, so reading and advancing the cursor is never interrupted;
  inside a call it is the continuation of the call.  When the call has returned the
  worker is at the top of its loop again.  A worker that does not exist or has
  returned does nothing.
\<close>

definition worker_turn :: "BatchCtx \<Rightarrow> Contact list \<Rightarrow> nat \<Rightarrow> PoolState \<Rightarrow> nat \<Rightarrow> PoolState" where
  "worker_turn ctx batch n ps w =
     (if w \<ge> n \<or> w \<in> returned ps then ps
      else
        (case running ps w of
           Some (contact, place) \<Rightarrow>
             (case resume ctx contact place (shared ps) of
                (next_place, st) \<Rightarrow>
                  ps\<lparr>running := (running ps)(w := map_option (Pair contact) next_place),
                     shared := st\<rparr>)
         | None \<Rightarrow>
             (let idx = nextIndex ps;
                  ps1 = ps\<lparr>nextIndex := idx + 1\<rparr>
              in if idx \<ge> length batch then ps1\<lparr>returned := insert w (returned ps1)\<rparr>
                 else
                   (case begin_contact ctx (batch ! idx) (shared ps1) of
                      (next_place, st) \<Rightarrow>
                        ps1\<lparr>pulls := pulls ps1 @ [(w, idx)],
                            running := (running ps1)(w := map_option (Pair (batch ! idx)) next_place),
                            shared := st\<rparr>))))"

text \<open>
  \<open>await Promise.allSettled(workers)\<close>: the turns are taken in the order \<open>sched\<close> the
  event loop happens to give them (a list of worker numbers), so the calls of different
  workers interleave at their awaits.  The join waits until every worker has returned,
  which the turns of \<open>drain\<close> stand for: each worker still running is resumed until it
  returns (a call takes at most eight turns).
\<close>

definition drain :: "nat \<Rightarrow> nat \<Rightarrow> nat list" where
  "drain n len = concat (map (\<lambda>w. replicate (8 * Suc (Suc len)) w) [0..<n])"

definition pool_start :: "BatchState \<Rightarrow> PoolState" where
  "pool_start st = \<lparr>nextIndex = 0, returned = {}, running = (\<lambda>w. None), pulls = [], shared = st\<rparr>"

definition runWorkers ::
  "BatchCtx \<Rightarrow> nat \<Rightarrow> Contact list \<Rightarrow> nat list \<Rightarrow> BatchState \<Rightarrow> PoolState" where
  "runWorkers ctx concurrency batch sched st =
     (let n = workerCount concurrency batch
      in foldl (worker_turn ctx batch n) (pool_start st) (sched @ drain n (length batch)))"

text \<open>
  A call that no other worker interleaves with: its segments run back to back, at most
  \<open>k\<close> of them.
\<close>

fun run_alone :: "nat \<Rightarrow> BatchCtx \<Rightarrow> Contact \<Rightarrow> suspension option \<times> BatchState \<Rightarrow> BatchState" where
  "run_alone k ctx contact (None, st) = st"
| "run_alone 0 ctx contact (Some place, st) = st"
| "run_alone (Suc k) ctx contact (Some place, st) = run_alone k ctx contact (resume ctx contact place st)"

subsection \<open>The result persister\<close>

text \<open>
  One element of \<open>upsertRows\<close>: the object \<open>base\<close> as the list of its keys and values, in
  the order they are assigned.  \<open>normalizeText\<close> is \<open>normalizeMetaErrorTextForStorage\<close>
  (lib/whatsapp-errors), \<open>now\<close> the clock reading of the branch.
\<close>

definition upsertRow ::
  "string \<Rightarrow> string \<Rightarrow> string \<Rightarrow> (string \<Rightarrow> nat \<Rightarrow> string) \<Rightarrow> PendingWriteOp
     \<Rightarrow> (column \<times> jsval) list" where
  "upsertRow campaignId trace now normalizeText op =
     (let opts = op_opts op;
          base = [(Col_campaign_id, JStr campaignId),
                  (Col_contact_id, JStr (String_of (contactId (op_contact op)))),
                  (Col_trace_id, JStr trace),
                  (Col_status, JStr (case op_status op of
                                       St_sent \<Rightarrow> ''sent''
                                     | St_failed \<Rightarrow> ''failed''
                                     | St_skipped \<Rightarrow> ''skipped'')),
                  (Col_sending_at, js_or (sendingAt opts) JNull)]
      in case op_status op of
           St_sent \<Rightarrow>
             base @
             [(Col_sent_at, JStr now), (Col_failed_at, JNull), (Col_skipped_at, JNull),
              (Col_message_id, js_or (messageId opts) JNull), (Col_error, JNull),
              (Col_skip_code, JNull), (Col_skip_reason, JNull), (Col_failure_code, JNull),
              (Col_failure_reason, JNull), (Col_failure_title, JNull),
              (Col_failure_details, JNull), (Col_failure_fbtrace_id, JNull),
              (Col_failure_subcode, JNull), (Col_failure_href, JNull)]
         | St_skipped \<Rightarrow>
             base @
             [(Col_skipped_at, JStr now), (Col_sent_at, JNull), (Col_failed_at, JNull),
              (Col_message_id, JNull), (Col_error, JNull),
              (Col_skip_code, js_or (skipCode opts) JNull),
              (Col_skip_reason, js_or (js_or (skipReason opts) (error opts)) JNull),
              (Col_failure_code, JNull), (Col_failure_reason, JNull),
              (Col_failure_title, JNull), (Col_failure_details, JNull),
              (Col_failure_fbtrace_id, JNull), (Col_failure_subcode, JNull),
              (Col_failure_href, JNull)]
         | St_failed \<Rightarrow>
             base @
             [(Col_failed_at, JStr now), (Col_sent_at, JNull), (Col_skipped_at, JNull),
              (Col_message_id, JNull), (Col_error, js_or (error opts) JNull)] @
             (case errorCode opts of JNum n \<Rightarrow> [(Col_failure_code, JNum n)] | _ \<Rightarrow> []) @
             (case errorTitle opts of
                JStr t \<Rightarrow> [(Col_failure_title, JStr (normalizeText t 200))] | _ \<Rightarrow> []) @
             (case errorDetails opts of
                JStr t \<Rightarrow> [(Col_failure_details, JStr (normalizeText t 800))] | _ \<Rightarrow> []) @
             (case errorFbtraceId opts of
                JStr t \<Rightarrow> [(Col_failure_fbtrace_id, JStr (normalizeText t 200))] | _ \<Rightarrow> []) @
             (case errorSubcode opts of JNum n \<Rightarrow> [(Col_failure_subcode, JNum n)] | _ \<Rightarrow> []) @
             (case errorHref opts of
                JStr t \<Rightarrow> [(Col_failure_href, JStr (normalizeText t 400))] | _ \<Rightarrow> []) @
             (case error opts of
                JStr e \<Rightarrow> if trim e \<noteq> [] then [(Col_failure_reason, JStr e)] else []
              | _ \<Rightarrow> []) @
             [(Col_skip_code, JNull), (Col_skip_reason, JNull)])"

text \<open>
  \<open>updateContactStatus\<close>, the per-row write of the fallback path: the object \<open>update\<close>
  given to \<open>.update(update).eq('campaign_id', campaignId).eq('contact_id', contactId)\<close>.
\<close>

definition updateContactStatus ::
  "string \<Rightarrow> (string \<Rightarrow> nat \<Rightarrow> string) \<Rightarrow> OutcomeStatus \<Rightarrow> ContactWriteOpts
     \<Rightarrow> (column \<times> jsval) list" where
  "updateContactStatus now normalizeText st opts =
     [(Col_status, JStr (case st of
                           St_sent \<Rightarrow> ''sent''
                         | St_failed \<Rightarrow> ''failed''
                         | St_skipped \<Rightarrow> ''skipped''))] @
     (if truthy (traceId opts) then [(Col_trace_id, traceId opts)] else []) @
     (if st = St_sent
      then [(Col_sent_at, JStr now), (Col_message_id, js_or (messageId opts) JNull),
            (Col_error, JNull), (Col_skip_code, JNull), (Col_skip_reason, JNull),
            (Col_skipped_at, JNull)]
      else []) @
     (if st = St_failed
      then [(Col_failed_at, JStr now), (Col_error, js_or (error opts) JNull)] @
           (case errorCode opts of JNum n \<Rightarrow> [(Col_failure_code, JNum n)] | _ \<Rightarrow> []) @
           (case errorTitle opts of
              JStr t \<Rightarrow> [(Col_failure_title, JStr (normalizeText t 200))] | _ \<Rightarrow> []) @
           (case errorDetails opts of
              JStr t \<Rightarrow> [(Col_failure_details, JStr (normalizeText t 800))] | _ \<Rightarrow> []) @
           (case errorFbtraceId opts of
              JStr t \<Rightarrow> [(Col_failure_fbtrace_id, JStr (normalizeText t 200))] | _ \<Rightarrow> []) @
           (case errorSubcode opts of JNum n \<Rightarrow> [(Col_failure_subcode, JNum n)] | _ \<Rightarrow> []) @
           (case errorHref opts of
              JStr t \<Rightarrow> [(Col_failure_href, JStr (normalizeText t 400))] | _ \<Rightarrow> []) @
           (case error opts of
              JStr e \<Rightarrow> if trim e \<noteq> [] then [(Col_failure_reason, JStr e)] else []
            | _ \<Rightarrow> [])
      else []) @
     (if st = St_skipped
      then [(Col_skipped_at, JStr now), (Col_skip_code, js_or (skipCode opts) JNull),
            (Col_skip_reason, js_or (js_or (skipReason opts) (error opts)) JNull),
            (Col_error, JNull), (Col_message_id, JNull)]
      else [])"

text \<open>
  A stored row gives every column a value (\<open>JNull\<close> for SQL NULL).  Both writes, the
  \<open>update\<close> and the upsert that meets an existing (campaign, contact) row, set the
  columns they list and leave the others as they are.
\<close>

definition write_row :: "(column \<Rightarrow> jsval) \<Rightarrow> (column \<times> jsval) list \<Rightarrow> (column \<Rightarrow> jsval)" where
  "write_row row upd = (\<lambda>c. case map_of upd c of Some v \<Rightarrow> v | None \<Rightarrow> row c)"

text \<open>The row invariant of the data model, as a test on a stored row.\<close>

definition terminal_stamps :: "(column \<Rightarrow> jsval) \<Rightarrow> nat" where
  "terminal_stamps row =
     length (filter (\<lambda>c. row c \<noteq> JNull) [Col_sent_at, Col_failed_at, Col_skipped_at])"

definition failure_and_skip_columns :: "column list" where
  "failure_and_skip_columns =
     [Col_error, Col_failure_code, Col_failure_reason, Col_failure_title,
      Col_failure_details, Col_failure_fbtrace_id, Col_failure_subcode, Col_failure_href,
      Col_skip_code, Col_skip_reason]"

subsection \<open>The counter update of a batch\<close>

text \<open>\<open>s || null\<close> and \<open>a || b\<close> on optional strings: the empty string is falsy.\<close>

definition str_or_null :: "string option \<Rightarrow> string option" where
  "str_or_null s = (case s of Some (c # cs) \<Rightarrow> Some (c # cs) | _ \<Rightarrow> None)"

definition str_or :: "string option \<Rightarrow> string option \<Rightarrow> string option" where
  "str_or a b = (case str_or_null a of Some x \<Rightarrow> Some x | None \<Rightarrow> b)"

text \<open>
  \<open>safeLastSentAt\<close>.  \<open>Date_parse\<close> is \<open>Date.parse\<close>: the milliseconds of the instant, or
  \<open>None\<close> for \<open>NaN\<close>.
\<close>

definition safeLastSentAt ::
  "(string \<Rightarrow> int option) \<Rightarrow> string option \<Rightarrow> string option \<Rightarrow> string option" where
  "safeLastSentAt Date_parse campaignLastSentAt batchLastSentAt =
     (let existing = str_or_null campaignLastSentAt;
          candidate = str_or_null batchLastSentAt
      in case candidate of
           None \<Rightarrow> existing
         | Some cand \<Rightarrow>
             (case existing of
                None \<Rightarrow> candidate
              | Some ex \<Rightarrow>
                  (case (Date_parse ex, Date_parse cand) of
                     (Some a, Some b) \<Rightarrow> if b > a then candidate else existing
                   | _ \<Rightarrow> str_or existing candidate)))"

definition counters_update ::
  "(string \<Rightarrow> int option) \<Rightarrow> Campaign \<Rightarrow> BatchState \<Rightarrow> CampaignAssign list" where
  "counters_update Date_parse campaign st =
     [SetSent (sent campaign + sentCount st),
      SetFailed (failed campaign + failedCount st),
      SetSkipped (skipped campaign + skippedCount st),
      SetFirstDispatchAt (str_or_null (str_or (firstDispatchAt campaign) (firstDispatchAtInBatch st))),
      SetLastSentAt (safeLastSentAt Date_parse (lastSentAt campaign) (lastSentAtInBatch st))]"

subsection \<open>The step send-batch\<close>

text \<open>
  What the collaborators of one batch step answer: the adaptive configuration, the
  template lookup (\<open>templateSnapshot || await templateDb.getByName(...)\<close>), the campaign
  status read at the start, \<open>getAdaptiveThrottleState\<close>, the opt-out and suppression
  sets after their best-effort loading, the claim, the contacts, the order of the worker
  turns, the bulk upsert, and the campaign read and update of the counter phase.
\<close>

record BatchEnv =
  env_adaptiveEnabled :: bool
  env_rawConcurrency :: "real option"
  env_template :: "exn + bool"
  env_statusAtBatchStart :: "exn + CampaignStatus option"
  env_throttleState :: "exn option"
  env_optOutContactIds :: "string set"
  env_suppressionsByPhone :: "string \<Rightarrow> string option option"
  env_claimNow :: string
  env_claimQuery :: "string list \<Rightarrow> string list supabase"
  env_io :: "Contact \<Rightarrow> ContactIO"
  env_schedule :: "nat list"
  env_persistNow :: string
  env_normalizeText :: "string \<Rightarrow> nat \<Rightarrow> string"
  env_bulkUpsert :: "unit supabase"
  env_Date_parse :: "string \<Rightarrow> int option"
  env_campaign :: "exn + Campaign option"
  env_updateStatus :: "exn option"

text \<open>How the \<open>try\<close> block of the step ends: it throws, it executes \<open>return\<close>, or it runs to its end.\<close>

datatype exit = Throws exn | Returns | Completes

text \<open>
  The persistence of the outcomes: one bulk upsert, and on \<open>bulkErr\<close> one
  \<open>updateContactStatus\<close> per outcome, each in its own \<open>try\<close>.
\<close>

definition persist_results :: "string \<Rightarrow> string \<Rightarrow> BatchEnv \<Rightarrow> BatchState \<Rightarrow> exit \<times> BatchState" where
  "persist_results campaignId trace env st =
     (if length (writeOps st) > 0
      then
        (let upsertRows = map (upsertRow campaignId trace (env_persistNow env) (env_normalizeText env))
                            (writeOps st);
             st1 = st\<lparr>effects := effects st @ [UpsertContacts upsertRows]\<rparr>
         in case env_bulkUpsert env of
              Rejects e \<Rightarrow> (Throws e, st1)
            | Resolves d (Some bulkErr) \<Rightarrow>
                (Completes,
                 st1\<lparr>effects := effects st1 @
                        map (\<lambda>op. UpdateContact (String_of (contactId (op_contact op)))
                                    (updateContactStatus (env_persistNow env) (env_normalizeText env)
                                       (op_status op) (op_opts op)))
                            (writeOps st)\<rparr>)
            | Resolves d None \<Rightarrow> (Completes, st1))
      else (Completes, st))"

definition batch_ctx :: "string \<Rightarrow> BatchEnv \<Rightarrow> string set \<Rightarrow> BatchCtx" where
  "batch_ctx trace env claimedIds =
     \<lparr>ctx_traceId = trace, ctx_adaptiveEnabled = env_adaptiveEnabled env,
      ctx_limiter = env_adaptiveEnabled env, ctx_claimedIds = claimedIds,
      ctx_optOutContactIds = env_optOutContactIds env,
      ctx_suppressionsByPhone = env_suppressionsByPhone env, ctx_io = env_io env\<rparr>"

text \<open>The \<open>try\<close> block of the step.\<close>

definition send_batch_body ::
  "string \<Rightarrow> string \<Rightarrow> string \<Rightarrow> BatchEnv \<Rightarrow> Contact list \<Rightarrow> exit \<times> BatchState" where
  "send_batch_body campaignId trace templateName env batch =
     (let st0 = batch_start
      in case env_template env of
           Inl e \<Rightarrow> (Throws e, st0)
         | Inr False \<Rightarrow> (Throws (TemplateNotFound templateName), st0)
         | Inr True \<Rightarrow>
             (case env_statusAtBatchStart env of
                Inl e \<Rightarrow> (Throws e, st0)
              | Inr st \<Rightarrow>
                  if st = Some PAUSED then (Returns, st0)
                  else
                    (case (if env_adaptiveEnabled env then env_throttleState env else None) of
                       Some e \<Rightarrow> (Throws e, st0)
                     | None \<Rightarrow>
                         (let contactIds = map (\<lambda>c. String_of (contactId c)) batch;
                              st1 = (if claim_ids contactIds \<noteq> []
                                     then st0\<lparr>effects := effects st0 @ [ClaimQuery (claim_ids contactIds)]\<rparr>
                                     else st0)
                          in case bulkClaimPendingForSend (env_claimNow env) (env_claimQuery env) contactIds of
                               Inl e \<Rightarrow> (Throws e, st1)
                             | Inr (claimedAt, claimedIds) \<Rightarrow>
                                 (let st2 = (if str_or_null claimedAt \<noteq> None
                                                \<and> str_or_null (firstDispatchAtInBatch st1) = None
                                             then st1\<lparr>firstDispatchAtInBatch := claimedAt\<rparr>
                                             else st1)
                                  in if claimedIds = {} then (Returns, st2)
                                     else persist_results campaignId trace env
                                            (shared (runWorkers (batch_ctx trace env claimedIds)
                                                       (concurrency_of (env_rawConcurrency env))
                                                       batch (env_schedule env) st2)))))))"

text \<open>
  The counter phase \<open>db_update_campaign_counters\<close>, reached only when the \<open>try\<close> block ran
  to its end.
\<close>

definition update_campaign_counters :: "BatchEnv \<Rightarrow> BatchState \<Rightarrow> exn option \<times> BatchState" where
  "update_campaign_counters env st =
     (case env_campaign env of
        Inl e \<Rightarrow> (Some e, st)
      | Inr None \<Rightarrow> (None, st)
      | Inr (Some campaign) \<Rightarrow>
          (env_updateStatus env,
           st\<lparr>effects := effects st @ [UpdateCampaign (counters_update (env_Date_parse env) campaign st)]\<rparr>))"

text \<open>
  The whole step: the \<open>try\<close> block, the \<open>finally\<close> block (which signals a stable batch when
  the adaptive throttle is on and no 130429 was seen), then the counter phase.  The
  result is the exception the step ends with, if any, and the shared variables with
  every call made.
\<close>

definition send_batch ::
  "string \<Rightarrow> string \<Rightarrow> string \<Rightarrow> BatchEnv \<Rightarrow> Contact list \<Rightarrow> exn option \<times> BatchState" where
  "send_batch campaignId trace templateName env batch =
     (case send_batch_body campaignId trace templateName env batch of
        (ex, st) \<Rightarrow>
          (let st1 = (if env_adaptiveEnabled env \<and> \<not> sawThroughput429 st
                      then st\<lparr>effects := effects st @ [StableBatch]\<rparr>
                      else st)
           in case ex of
                Throws e \<Rightarrow> (Some e, st1)
              | Returns \<Rightarrow> (None, st1)
              | Completes \<Rightarrow> update_campaign_counters env st1))"

subsection \<open>The workflow\<close>

text \<open>
  \<open>BATCH_SIZE\<close> is \<open>Math.max(1, Math.min(200, Math.floor(rawBatchSize)))\<close> for a finite
  number and 10 otherwise; the contacts are cut into slices of that length.
\<close>

definition BATCH_SIZE :: "real option \<Rightarrow> nat" where
  "BATCH_SIZE rawBatchSize =
     (case rawBatchSize of
        None \<Rightarrow> 10
      | Some r \<Rightarrow> nat (max 1 (min 200 \<lfloor>r\<rfloor>)))"

function splitBatches :: "real option \<Rightarrow> nat \<Rightarrow> Contact list \<Rightarrow> Contact list list" where
  "splitBatches raw i contacts =
     (if i < length contacts
      then take (BATCH_SIZE raw) (drop i contacts) # splitBatches raw (i + BATCH_SIZE raw) contacts
      else [])"
  by pat_completeness auto
termination
proof (relation "measure (\<lambda>(raw, i, contacts). length contacts - i)")
  fix raw :: "real option" and i :: nat and contacts :: "Contact list"
  assume "i < length contacts"
  moreover have "0 < BATCH_SIZE raw"
    by (cases raw) (simp_all add: BATCH_SIZE_def)
  ultimately show "((raw, i + BATCH_SIZE raw, contacts), (raw, i, contacts))
      \<in> measure (\<lambda>(raw, i, contacts). length contacts - i)"
    by simp
qed simp

text \<open>
  What the collaborators of the steps around the batches answer: the campaign read and
  the update of \<open>init-campaign\<close>, the configured batch size, one environment per batch
  index, the campaign read and the update of \<open>complete-campaign\<close>.
\<close>

record WorkflowEnv =
  wf_existing :: "exn + Campaign option"
  wf_initNow :: string
  wf_initUpdate :: "exn option"
  wf_rawBatchSize :: "real option"
  wf_batch :: "nat \<Rightarrow> BatchEnv"
  wf_finalCampaign :: "exn + Campaign option"
  wf_completeNow :: string
  wf_completeUpdate :: "exn option"

definition init_campaign :: "WorkflowEnv \<Rightarrow> exn option \<times> effect list" where
  "init_campaign env =
     (case wf_existing env of
        Inl e \<Rightarrow> (Some e, [])
      | Inr existing \<Rightarrow>
          (let started = (case existing of
                            None \<Rightarrow> wf_initNow env
                          | Some c \<Rightarrow> (case str_or_null (startedAt c) of
                                         Some s \<Rightarrow> s
                                       | None \<Rightarrow> wf_initNow env))
           in (wf_initUpdate env,
               [InitCampaign [SetStatus SENDING, SetStartedAt (Some started), SetCompletedAt None]])))"

fun run_batches ::
  "string \<Rightarrow> string \<Rightarrow> string \<Rightarrow> WorkflowEnv \<Rightarrow> nat \<Rightarrow> Contact list list
     \<Rightarrow> exn option \<times> effect list" where
  "run_batches campaignId trace templateName env batchIndex [] = (None, [])"
| "run_batches campaignId trace templateName env batchIndex (batch # rest) =
     (case send_batch campaignId trace templateName (wf_batch env batchIndex) batch of
        (Some e, st) \<Rightarrow> (Some e, effects st)
      | (None, st) \<Rightarrow>
          (case run_batches campaignId trace templateName env (Suc batchIndex) rest of
             (r, es) \<Rightarrow> (r, effects st @ es)))"

definition complete_step :: "WorkflowEnv \<Rightarrow> exn option \<times> effect list" where
  "complete_step env =
     (case wf_finalCampaign env of
        Inl e \<Rightarrow> (Some e, [])
      | Inr campaign \<Rightarrow>
          (wf_completeUpdate env,
           [UpdateCampaign (complete_campaign (wf_completeNow env) campaign)]))"

text \<open>
  The handler given to \<open>serve\<close>: the payload check, then the steps in order; a step that
  throws ends the run.  The result is the exception of the run, if any, and the calls
  made.
\<close>

definition workflow ::
  "string \<Rightarrow> string \<Rightarrow> string \<Rightarrow> WorkflowEnv \<Rightarrow> Contact list \<Rightarrow> exn option \<times> effect list" where
  "workflow campaignId trace templateName env contacts =
     (case payload_error contacts of
        Some e \<Rightarrow> (Some e, [])
      | None \<Rightarrow>
          (case init_campaign env of
             (Some e, es1) \<Rightarrow> (Some e, es1)
           | (None, es1) \<Rightarrow>
               (case run_batches campaignId trace templateName env 0
                       (splitBatches (wf_rawBatchSize env) 0 contacts) of
                  (Some e, es2) \<Rightarrow> (Some e, es1 @ es2)
                | (None, es2) \<Rightarrow>
                    (case complete_step env of
                       (r, es3) \<Rightarrow> (r, es1 @ es2 @ es3)))))"

subsection \<open>Sample inputs\<close>

text \<open>
  Concrete contacts, provider replies and collaborator answers on which the functions
  above are evaluated.  The contact is the one of the repository's template-contract
  test.
\<close>

definition sample_contact :: "string \<Rightarrow> Contact" where
  "sample_contact cid =
     \<lparr>contactId = Some cid, phone = ''+5511999999999'', name = ''Joao'',
      custom_fields = None, email = None\<rparr>"

definition contact_without_id :: Contact where
  "contact_without_id =
     \<lparr>contactId = None, phone = ''+5511888888888'', name = ''Maria'',
      custom_fields = None, email = None\<rparr>"

definition reply_sent :: "exn + (bool \<times> (exn + jsval))" where
  "reply_sent = Inr (True, Inr (JObj [(''messages'', JArr [JObj [(''id'', JStr ''wamid.1'')]])]))"

definition reply_no_id :: "exn + (bool \<times> (exn + jsval))" where
  "reply_no_id = Inr (True, Inr (JObj [(''messages'', JArr [])]))"

definition reply_throughput :: "exn + (bool \<times> (exn + jsval))" where
  "reply_throughput = Inr (False, Inr (JObj [(''error'', JObj [(''code'', JNum 130429)])]))"

definition reply_timeout :: "exn + (bool \<times> (exn + jsval))" where
  "reply_timeout = Inl (Error ''This operation was aborted'')"

definition sample_io :: "exn + (bool \<times> (exn + jsval)) \<Rightarrow> ContactIO" where
  "sample_io reply =
     \<lparr>io_sendingAtIso = ''2026-01-01T00:00:00.000Z'', io_acquire = None,
      io_precheck = Inr (PrecheckOk ''+5511999999999''), io_payload = None,
      io_fetch = reply, io_sentAtIso = ''2026-01-01T00:00:01.000Z'',
      io_errorWithCode = ''(#130429) Limite de taxa'',
      io_recordThroughputExceeded = None\<rparr>"

definition sample_io_of :: "exn + (bool \<times> (exn + jsval)) \<Rightarrow> Contact \<Rightarrow> ContactIO" where
  "sample_io_of reply c = sample_io reply"

text \<open>The request for contact \<open>a\<close> times out; every other contact gets \<open>reply\<close>.\<close>

definition io_timeout_for_a :: "exn + (bool \<times> (exn + jsval)) \<Rightarrow> Contact \<Rightarrow> ContactIO" where
  "io_timeout_for_a reply c =
     (if contactId c = Some ''a'' then sample_io reply_timeout else sample_io reply)"

definition answer_with :: "string list supabase \<Rightarrow> string list \<Rightarrow> string list supabase" where
  "answer_with r ids = r"

definition take_text :: "string \<Rightarrow> nat \<Rightarrow> string" where
  "take_text s n = take n s"

definition no_suppression :: "string \<Rightarrow> string option option" where
  "no_suppression p = None"

definition sample_parse :: "string \<Rightarrow> int option" where
  "sample_parse s =
     (if s = ''2026-01-01T00:00:00.000Z'' then Some 1767225600000
      else if s = ''2026-01-01T00:00:01.000Z'' then Some 1767225601000
      else None)"

text \<open>An order of turns that lets three workers finish a batch of up to three contacts.\<close>

definition sample_schedule :: "nat list" where
  "sample_schedule =
     [1, 0, 2, 1, 0, 2, 1, 0, 2, 1, 0, 2, 1, 0, 2, 1, 0, 2, 1, 0, 2, 1, 0, 2, 1, 0, 2,
      1, 0, 2, 1, 0, 2, 1, 0, 2, 1, 0, 2, 1, 0, 2, 1, 0, 2, 1, 0, 2, 1, 0, 2, 1, 0, 2]"

definition sample_env :: "string list supabase \<Rightarrow> (Contact \<Rightarrow> ContactIO) \<Rightarrow> BatchEnv" where
  "sample_env claim io =
     \<lparr>env_adaptiveEnabled = True, env_rawConcurrency = Some 3, env_template = Inr True,
      env_statusAtBatchStart = Inr (Some SENDING), env_throttleState = None,
      env_optOutContactIds = {}, env_suppressionsByPhone = no_suppression,
      env_claimNow = ''2026-01-01T00:00:00.000Z'', env_claimQuery = answer_with claim,
      env_io = io, env_schedule = sample_schedule,
      env_persistNow = ''2026-01-01T00:00:02.000Z'', env_normalizeText = take_text,
      env_bulkUpsert = Resolves None None, env_Date_parse = sample_parse,
      env_campaign = Inr None, env_updateStatus = None\<rparr>"

definition sample_batch_env :: "nat \<Rightarrow> BatchEnv" where
  "sample_batch_env i = sample_env (Resolves (Some [''a'']) None) (io_timeout_for_a reply_sent)"

definition sample_workflow_env :: WorkflowEnv where
  "sample_workflow_env =
     \<lparr>wf_existing = Inr None, wf_initNow = ''2026-01-01T00:00:00.000Z'',
      wf_initUpdate = None, wf_rawBatchSize = Some 10, wf_batch = sample_batch_env,
      wf_finalCampaign = Inr None, wf_completeNow = ''2026-01-01T00:00:09.000Z'',
      wf_completeUpdate = None\<rparr>"

text \<open>
  A row of a contact that an earlier run skipped and that was queued again: it is in
  \<open>sending\<close> after the claim and still carries the stamp and the fields of the skip.
\<close>

definition requeued_row :: "column \<Rightarrow> jsval" where
  "requeued_row c =
     (if c = Col_status then JStr ''sending''
      else if c = Col_skipped_at then JStr ''2025-12-31T00:00:00.000Z''
      else if c = Col_skip_code then JStr ''MISSING_REQUIRED_PARAM''
      else if c = Col_skip_reason then JStr ''body:1''
      else JNull)"

text \<open>The same for a contact whose earlier attempt failed.\<close>

definition refailed_row :: "column \<Rightarrow> jsval" where
  "refailed_row c =
     (if c = Col_status then JStr ''sending''
      else if c = Col_failed_at then JStr ''2025-12-31T00:00:00.000Z''
      else if c = Col_failure_code then JNum 131026
      else if c = Col_failure_reason then JStr ''(#131026) Mensagem nao entregue''
      else JNull)"

definition failed_op :: PendingWriteOp where
  "failed_op =
     \<lparr>op_contact = sample_contact ''a'', op_status = St_failed,
      op_opts = no_opts\<lparr>sendingAt := JStr ''2026-01-01T00:00:00.000Z'',
                         error := JStr ''This operation was aborted'',
                         errorTitle := JStr ''Contact exception'',
                         errorDetails := JStr ''This operation was aborted'',
                         traceId := JStr ''trace''\<rparr>\<rparr>"

definition sent_op :: PendingWriteOp where
  "sent_op =
     \<lparr>op_contact = sample_contact ''a'', op_status = St_sent,
      op_opts = no_opts\<lparr>sendingAt := JStr ''2026-01-01T00:00:00.000Z'',
                         messageId := JStr ''wamid.1'',
                         traceId := JStr ''trace''\<rparr>\<rparr>"

text \<open>
  Two campaigns as the completion step may read them: every recipient failed, and four
  of five sent.
\<close>

definition all_failed_campaign :: Campaign where
  "all_failed_campaign =
     \<lparr>status = SENDING, recipients = 5, sent = 0, failed = 5, skipped = 0,
      startedAt = Some ''2026-01-01T00:00:00.000Z'', firstDispatchAt = None, lastSentAt = None,
      completedAt = None\<rparr>"

definition partly_sent_campaign :: Campaign where
  "partly_sent_campaign =
     \<lparr>status = SENDING, recipients = 5, sent = 4, failed = 1, skipped = 0,
      startedAt = Some ''2026-01-01T00:00:00.000Z'', firstDispatchAt = None, lastSentAt = None,
      completedAt = None\<rparr>"

subsection \<open>Invariants of the worker pool\<close>

text \<open>
  An upper bound on the turns a call still takes from a place, and whether the call has
  pushed its outcome when it is suspended there.
\<close>

fun turns_left :: "suspension \<Rightarrow> nat" where
  "turns_left At_acquire = 7"
| "turns_left At_request_trace = 6"
| "turns_left At_fetch = 5"
| "turns_left (At_json ok body) = 4"
| "turns_left (At_throughput data) = 3"
| "turns_left (At_fail_trace data) = 2"
| "turns_left At_skip_trace = 1"
| "turns_left At_sent_trace = 1"
| "turns_left At_auto_suppress = 1"
| "turns_left (At_catch_trace e) = 1"

fun pushed :: "suspension \<Rightarrow> bool" where
  "pushed At_skip_trace = True"
| "pushed At_sent_trace = True"
| "pushed At_auto_suppress = True"
| "pushed place = False"

text \<open>The contact a worker owes an outcome for, as a multiset with at most one element.\<close>

definition owed :: "(Contact \<times> suspension) option \<Rightarrow> Contact multiset" where
  "owed r = (case r of None \<Rightarrow> {#} | Some (c, place) \<Rightarrow> if pushed place then {#} else {#c#})"

text \<open>
  What holds of the pool after any number of turns, starting from the shared variables
  \<open>st0\<close>: the indices pulled are those before the cursor, every pull was made by one of
  the \<open>n\<close> workers, a worker returns only once the cursor is past the end of the batch
  and processes nothing afterwards, every contact being processed was claimed, and the
  outcomes pushed together with the outcomes owed are the claimed entries before the
  cursor.
\<close>

definition pool_inv :: "BatchCtx \<Rightarrow> Contact list \<Rightarrow> nat \<Rightarrow> BatchState \<Rightarrow> PoolState \<Rightarrow> bool" where
  "pool_inv ctx batch n st0 ps =
     (map snd (pulls ps) = [0..<min (nextIndex ps) (length batch)]
      \<and> (\<forall>p \<in> set (pulls ps). fst p < n)
      \<and> returned ps \<subseteq> {..<n}
      \<and> (returned ps \<noteq> {} \<longrightarrow> length batch < nextIndex ps)
      \<and> (\<forall>w \<in> returned ps. running ps w = None)
      \<and> (\<forall>w c place. running ps w = Some (c, place) \<longrightarrow>
            String_of (contactId c) \<in> ctx_claimedIds ctx)
      \<and> mset (map op_contact (writeOps (shared ps))) + (\<Sum>w<n. owed (running ps w))
          = mset (map op_contact (writeOps st0))
            + mset (filter (\<lambda>c. String_of (contactId c) \<in> ctx_claimedIds ctx)
                      (take (nextIndex ps) batch)))"

definition step_rel :: "Contact \<Rightarrow> BatchState \<Rightarrow> BatchState \<Rightarrow> bool" where
  "step_rel c st st' =
     ((\<forall>x \<in> set (writeOps st'). x \<in> set (writeOps st) \<or> op_contact x = c)
      \<and> ((effects st' = effects st \<or> effects st' = effects st @ [MetaSend c])
            \<and> sawThroughput429 st' = sawThroughput429 st
          \<or> (\<not> sawThroughput429 st \<and> sawThroughput429 st'
              \<and> effects st' = effects st @ [ThroughputExceeded])))"

definition shared_ok :: "BatchCtx \<Rightarrow> BatchState \<Rightarrow> bool" where
  "shared_ok ctx st =
     ((\<forall>x. MetaSend x \<in> set (effects st) \<longrightarrow> String_of (contactId x) \<in> ctx_claimedIds ctx)
      \<and> (\<forall>x \<in> set (writeOps st). String_of (contactId (op_contact x)) \<in> ctx_claimedIds ctx)
      \<and> length (filter is_ThroughputExceeded (effects st)) \<le> 1
      \<and> (filter is_ThroughputExceeded (effects st) \<noteq> [] \<longrightarrow> sawThroughput429 st))"

text \<open>An upper bound on the turns a worker still takes before it returns.\<close>

definition turns_bound :: "Contact list \<Rightarrow> PoolState \<Rightarrow> nat \<Rightarrow> nat" where
  "turns_bound batch ps w =
     (case running ps w of None \<Rightarrow> 0 | Some (c, place) \<Rightarrow> turns_left place)
     + 8 * (Suc (length batch) - nextIndex ps)"

section \<open>Properties\<close>

subsection \<open>A call of processContact that is not interleaved\<close>

lemma concurrency_of_pos: "0 < concurrency_of raw"
  by (cases raw) (simp_all add: concurrency_of_def)

lemma processContact_unclaimed:
  "String_of (contactId c) \<notin> ctx_claimedIds ctx \<Longrightarrow> processContact ctx c st = st"
  by (simp add: processContact_def)

lemma send_failed_shape:
  assumes "send_failed ctx c data st = (r, st')"
  shows "(r = None \<longrightarrow> (\<exists>op. writeOps st' = writeOps st @ [op] \<and> op_contact op = c
                          \<and> op_status op = St_failed))
         \<and> (r \<noteq> None \<longrightarrow> writeOps st' = writeOps st)
         \<and> ((effects st' = effects st \<and> sawThroughput429 st' = sawThroughput429 st)
            \<or> (\<not> sawThroughput429 st \<and> sawThroughput429 st'
                \<and> effects st' = effects st @ [ThroughputExceeded]))"
  using assms
  by (auto simp: send_failed_def Let_def pushWriteOp_def split: if_splits option.splits)

lemma classify_response_shape:
  assumes "classify_response ctx c ok data st = (r, st')"
  shows "(r = None \<longrightarrow> (\<exists>op. writeOps st' = writeOps st @ [op] \<and> op_contact op = c))
         \<and> (r \<noteq> None \<longrightarrow> writeOps st' = writeOps st)
         \<and> ((effects st' = effects st \<and> sawThroughput429 st' = sawThroughput429 st)
            \<or> (\<not> sawThroughput429 st \<and> sawThroughput429 st'
                \<and> effects st' = effects st @ [ThroughputExceeded]))"
proof (cases "send_condition ok data")
  case (Inl e)
  then show ?thesis using assms by (auto simp: classify_response_def)
next
  case (Inr b)
  show ?thesis
  proof (cases b)
    case True
    then show ?thesis using assms Inr
      by (auto simp: classify_response_def Let_def pushWriteOp_def)
  next
    case False
    then have "send_failed ctx c data st = (r, st')"
      using assms Inr by (simp add: classify_response_def)
    from send_failed_shape[OF this] show ?thesis
      by auto
  qed
qed

lemma skip_contact_shape:
  "(\<exists>op. writeOps (skip_contact ctx c code reason st) = writeOps st @ [op] \<and> op_contact op = c
         \<and> op_status op = St_skipped)
   \<and> effects (skip_contact ctx c code reason st) = effects st
   \<and> sawThroughput429 (skip_contact ctx c code reason st) = sawThroughput429 st"
  by (simp add: skip_contact_def pushWriteOp_def Let_def)

lemma try_contact_shape:
  assumes "try_contact ctx c st = (r, st')"
  shows "(r = None \<longrightarrow> (\<exists>op. writeOps st' = writeOps st @ [op] \<and> op_contact op = c))
         \<and> (r \<noteq> None \<longrightarrow> writeOps st' = writeOps st)
         \<and> ((effects st' = effects st \<or> effects st' = effects st @ [MetaSend c])
               \<and> sawThroughput429 st' = sawThroughput429 st
            \<or> (\<not> sawThroughput429 st \<and> sawThroughput429 st'
                \<and> effects st' = effects st @ [MetaSend c, ThroughputExceeded]))"
proof -
  let ?io = "ctx_io ctx c"
  let ?st1 = "st\<lparr>effects := effects st @ [MetaSend c]\<rparr>"
  note sk = skip_contact_shape[of ctx c _ _ st]
  show ?thesis
  proof (cases "if ctx_limiter ctx then io_acquire ?io else None")
    case (Some e)
    then have "try_contact ctx c st = (Some e, st)" by (simp add: try_contact_def)
    with assms show ?thesis by auto
  next
    case acq: None
    show ?thesis
    proof (cases "io_precheck ?io")
      case (Inl e)
      then have "try_contact ctx c st = (Some e, st)" using acq by (simp add: try_contact_def)
      with assms show ?thesis by auto
    next
      case (Inr p)
      show ?thesis
      proof (cases p)
        case (PrecheckSkip code reason)
        then have "try_contact ctx c st = (None, skip_contact ctx c code reason st)"
          using acq Inr by (simp add: try_contact_def)
        with assms sk[of code reason] show ?thesis by auto
      next
        case (PrecheckOk ph)
        note pre = acq Inr PrecheckOk
        show ?thesis
        proof (cases "String_of (contactId c) \<in> ctx_optOutContactIds ctx")
          case True
          then have "try_contact ctx c st = (None, skip_contact ctx c ''OPT_OUT'' opt_out_reason st)"
            using pre by (simp add: try_contact_def)
          with assms sk[of "''OPT_OUT''" opt_out_reason] show ?thesis by auto
        next
          case noopt: False
          show ?thesis
          proof (cases "ctx_suppressionsByPhone ctx ph")
            case (Some reason)
            then have "try_contact ctx c st =
                (None, skip_contact ctx c ''SUPPRESSED'' (suppressed_reason reason) st)"
              using pre noopt by (simp add: try_contact_def)
            with assms sk[of "''SUPPRESSED''" "suppressed_reason reason"] show ?thesis by auto
          next
            case nosup: None
            show ?thesis
            proof (cases "io_payload ?io")
              case (Some e)
              then have "try_contact ctx c st = (Some e, st)"
                using pre noopt nosup by (simp add: try_contact_def)
              with assms show ?thesis by auto
            next
              case pay: None
              show ?thesis
              proof (cases "io_fetch ?io")
                case (Inl e)
                then have "try_contact ctx c st = (Some e, ?st1)"
                  using pre noopt nosup pay by (simp add: try_contact_def Let_def)
                with assms show ?thesis by auto
              next
                case (Inr resp)
                obtain ok body where resp: "resp = (ok, body)" by (cases resp)
                show ?thesis
                proof (cases body)
                  case (Inl e)
                  then have "try_contact ctx c st = (Some e, ?st1)"
                    using pre noopt nosup pay Inr resp by (simp add: try_contact_def Let_def)
                  with assms show ?thesis by auto
                next
                  case (Inr data)
                  then have "try_contact ctx c st = classify_response ctx c ok data ?st1"
                    using pre noopt nosup pay \<open>io_fetch ?io = Inr resp\<close> resp
                    by (simp add: try_contact_def Let_def)
                  with assms have "classify_response ctx c ok data ?st1 = (r, st')" by simp
                  from classify_response_shape[OF this] show ?thesis by auto
                qed
              qed
            qed
          qed
        qed
      qed
    qed
  qed
qed

lemma catch_contact_shape:
  "writeOps (catch_contact ctx c e st) =
     writeOps st @ [\<lparr>op_contact = c, op_status = St_failed,
        op_opts = no_opts\<lparr>sendingAt := JStr (io_sendingAtIso (ctx_io ctx c)),
                           error := JStr (error_message e),
                           errorTitle := JStr ''Contact exception'',
                           errorDetails := JStr (error_message e),
                           traceId := JStr (ctx_traceId ctx)\<rparr>\<rparr>]
   \<and> effects (catch_contact ctx c e st) = effects st
   \<and> sawThroughput429 (catch_contact ctx c e st) = sawThroughput429 st"
  by (simp add: catch_contact_def pushWriteOp_def Let_def)

lemma processContact_claimed_shape:
  assumes "String_of (contactId c) \<in> ctx_claimedIds ctx"
  shows "(\<exists>op. writeOps (processContact ctx c st) = writeOps st @ [op] \<and> op_contact op = c)
         \<and> ((effects (processContact ctx c st) = effects st
                \<or> effects (processContact ctx c st) = effects st @ [MetaSend c])
               \<and> sawThroughput429 (processContact ctx c st) = sawThroughput429 st
            \<or> (\<not> sawThroughput429 st \<and> sawThroughput429 (processContact ctx c st)
                \<and> effects (processContact ctx c st) = effects st @ [MetaSend c, ThroughputExceeded]))"
proof -
  obtain r st1 where t: "try_contact ctx c st = (r, st1)" by (cases "try_contact ctx c st")
  note sh = try_contact_shape[OF t]
  show ?thesis
  proof (cases r)
    case None
    then have "processContact ctx c st = st1" using assms t by (simp add: processContact_def)
    then show ?thesis using sh None by auto
  next
    case (Some e)
    then have "processContact ctx c st = catch_contact ctx c e st1"
      using assms t by (simp add: processContact_def)
    then show ?thesis using sh Some catch_contact_shape[of ctx c e st1] by auto
  qed
qed

lemma no_effect_in_updates:
  "filter is_MetaSend (map (\<lambda>op. UpdateContact (f op) (g op)) ops) = []"
  "filter is_ThroughputExceeded (map (\<lambda>op. UpdateContact (f op) (g op)) ops) = []"
  by (induction ops) simp_all

lemma persist_results_frame:
  assumes "persist_results campaignId trace env st = (ex, st')"
  shows "writeOps st' = writeOps st
       \<and> filter is_MetaSend (effects st') = filter is_MetaSend (effects st)
       \<and> filter is_ThroughputExceeded (effects st') = filter is_ThroughputExceeded (effects st)
       \<and> sawThroughput429 st' = sawThroughput429 st"
  using assms
  by (auto simp: persist_results_def Let_def no_effect_in_updates
           split: if_splits supabase.splits option.splits)

lemma send_batch_body_cases:
  assumes "send_batch_body campaignId trace templateName env batch = (ex, st)"
  shows "(writeOps st = [] \<and> filter is_MetaSend (effects st) = []
            \<and> filter is_ThroughputExceeded (effects st) = [] \<and> ex \<noteq> Completes)
       \<or> (\<exists>claimedAt claimedIds st2.
             bulkClaimPendingForSend (env_claimNow env) (env_claimQuery env)
                (map (\<lambda>c. String_of (contactId c)) batch) = Inr (claimedAt, claimedIds)
             \<and> claimedIds \<noteq> {}
             \<and> writeOps st2 = [] \<and> effects st2 = [ClaimQuery (claim_ids (map (\<lambda>c. String_of (contactId c)) batch))]
             \<and> \<not> sawThroughput429 st2
             \<and> persist_results campaignId trace env
                  (shared (runWorkers (batch_ctx trace env claimedIds)
                             (concurrency_of (env_rawConcurrency env)) batch (env_schedule env) st2))
                 = (ex, st))"
proof -
  let ?ids = "map (\<lambda>c. String_of (contactId c)) batch"
  let ?st1 = "if claim_ids ?ids \<noteq> []
              then batch_start\<lparr>effects := effects batch_start @ [ClaimQuery (claim_ids ?ids)]\<rparr>
              else batch_start"
  have st1: "writeOps ?st1 = [] \<and> filter is_MetaSend (effects ?st1) = []
      \<and> filter is_ThroughputExceeded (effects ?st1) = [] \<and> \<not> sawThroughput429 ?st1"
    by (simp add: batch_start_def)
  have nonempty: "\<And>a ids. bulkClaimPendingForSend (env_claimNow env) (env_claimQuery env) ?ids = Inr (a, ids)
      \<Longrightarrow> ids \<noteq> {} \<Longrightarrow> claim_ids ?ids \<noteq> []"
    by (auto simp: bulkClaimPendingForSend_def Let_def split: if_splits)
  show ?thesis
  proof (cases "env_template env")
    case (Inl e)
    then show ?thesis using assms by (auto simp: send_batch_body_def batch_start_def)
  next
    case tpl: (Inr found)
    show ?thesis
    proof (cases found)
      case False
      then show ?thesis using assms tpl by (auto simp: send_batch_body_def batch_start_def)
    next
      case True
      note tpl = tpl True
      show ?thesis
      proof (cases "env_statusAtBatchStart env")
        case (Inl e)
        then show ?thesis using assms tpl by (auto simp: send_batch_body_def batch_start_def)
      next
        case stat: (Inr s)
        show ?thesis
        proof (cases "s = Some PAUSED")
          case True
          then show ?thesis using assms tpl stat by (auto simp: send_batch_body_def batch_start_def)
        next
          case np: False
          show ?thesis
          proof (cases "if env_adaptiveEnabled env then env_throttleState env else None")
            case (Some e)
            then show ?thesis using assms tpl stat np
              by (auto simp: send_batch_body_def batch_start_def)
          next
            case thr: None
            show ?thesis
            proof (cases "bulkClaimPendingForSend (env_claimNow env) (env_claimQuery env) ?ids")
              case (Inl e)
              then have "send_batch_body campaignId trace templateName env batch = (Throws e, ?st1)"
                using tpl stat np thr by (simp add: send_batch_body_def Let_def)
              then show ?thesis using assms st1 by auto
            next
              case (Inr res)
              obtain claimedAt claimedIds where res: "res = (claimedAt, claimedIds)" by (cases res)
              let ?st2 = "if str_or_null claimedAt \<noteq> None
                               \<and> str_or_null (firstDispatchAtInBatch ?st1) = None
                          then ?st1\<lparr>firstDispatchAtInBatch := claimedAt\<rparr> else ?st1"
              have st2: "writeOps ?st2 = [] \<and> filter is_MetaSend (effects ?st2) = []
                  \<and> filter is_ThroughputExceeded (effects ?st2) = [] \<and> \<not> sawThroughput429 ?st2"
                using st1 by simp
              show ?thesis
              proof (cases "claimedIds = {}")
                case True
                then have "send_batch_body campaignId trace templateName env batch = (Returns, ?st2)"
                  using tpl stat np thr Inr res by (simp add: send_batch_body_def Let_def)
                then show ?thesis using assms st2 by auto
              next
                case False
                then have ne: "claim_ids ?ids \<noteq> []" using nonempty Inr res by blast
                have body: "send_batch_body campaignId trace templateName env batch =
                    persist_results campaignId trace env
                      (shared (runWorkers (batch_ctx trace env claimedIds)
                                 (concurrency_of (env_rawConcurrency env)) batch (env_schedule env) ?st2))"
                  using tpl stat np thr Inr res False by (simp add: send_batch_body_def Let_def)
                have pr: "persist_results campaignId trace env
                      (shared (runWorkers (batch_ctx trace env claimedIds)
                                 (concurrency_of (env_rawConcurrency env)) batch (env_schedule env) ?st2))
                    = (ex, st)"
                  using body assms by simp
                have fresh: "writeOps ?st2 = [] \<and> effects ?st2 = [ClaimQuery (claim_ids ?ids)]
                    \<and> \<not> sawThroughput429 ?st2"
                  using ne by (simp add: batch_start_def)
                have cl: "bulkClaimPendingForSend (env_claimNow env) (env_claimQuery env) ?ids
                    = Inr (claimedAt, claimedIds)"
                  using Inr res by simp
                show ?thesis
                  apply (rule disjI2)
                  apply (rule exI[of _ claimedAt])
                  apply (rule exI[of _ claimedIds])
                  apply (rule exI[of _ ?st2])
                  using cl False fresh pr by simp
              qed
            qed
          qed
        qed
      qed
    qed
  qed
qed

lemma send_batch_frame:
  assumes "send_batch_body campaignId trace templateName env batch = (ex, st)"
  shows "writeOps (snd (send_batch campaignId trace templateName env batch)) = writeOps st
       \<and> filter is_MetaSend (effects (snd (send_batch campaignId trace templateName env batch)))
           = filter is_MetaSend (effects st)
       \<and> filter is_ThroughputExceeded (effects (snd (send_batch campaignId trace templateName env batch)))
           = filter is_ThroughputExceeded (effects st)"
  using assms
  by (auto simp: send_batch_def update_campaign_counters_def Let_def
           split: exit.splits sum.splits option.splits)

lemma MetaSend_filter: "MetaSend c \<in> set es \<longleftrightarrow> MetaSend c \<in> set (filter is_MetaSend es)"
  by simp

lemma zero_claim_returns:
  assumes claim: "bulkClaimPendingForSend (env_claimNow env) (env_claimQuery env)
            (map (\<lambda>c. String_of (contactId c)) batch) = Inr (claimedAt, {})"
    and "env_template env = Inr True"
    and "env_statusAtBatchStart env = Inr s"
    and "env_adaptiveEnabled env \<longrightarrow> env_throttleState env = None"
  shows "fst (send_batch campaignId trace templateName env batch) = None"
  using assms
  by (auto simp: send_batch_def send_batch_body_def Let_def split: if_splits)

subsection \<open>The segments of a call\<close>

lemma guard_contact_shape:
  assumes "guard_contact ctx c st = (r, st')"
  shows "mset (map op_contact (writeOps st')) + owed (map_option (Pair c) r)
           = mset (map op_contact (writeOps st)) + {#c#}"
    and "step_rel c st st'"
    and "\<exists>q. r = Some q \<and> turns_left q \<le> 6"
  using assms
  by (auto simp: guard_contact_def owed_def pushWriteOp_def skipped_outcome_def step_rel_def
           split: sum.splits Precheck.splits if_splits option.splits)

lemma classify_segment_shape:
  assumes "classify_segment ctx c ok data st = (r, st')"
  shows "mset (map op_contact (writeOps st')) + owed (map_option (Pair c) r)
           = mset (map op_contact (writeOps st)) + {#c#}"
    and "step_rel c st st'"
    and "\<exists>q. r = Some q \<and> turns_left q \<le> 3"
  using assms
  by (auto simp: classify_segment_def owed_def pushWriteOp_def sent_outcome_def step_rel_def
           split: sum.splits bool.splits if_splits)

lemma resume_shape:
  assumes "resume ctx c place st = (r, st')"
  shows "mset (map op_contact (writeOps st')) + owed (map_option (Pair c) r)
           = mset (map op_contact (writeOps st)) + owed (Some (c, place))"
    and "step_rel c st st'"
    and "\<forall>q. r = Some q \<longrightarrow> turns_left q < turns_left place"
proof -
  have "(mset (map op_contact (writeOps st')) + owed (map_option (Pair c) r)
           = mset (map op_contact (writeOps st)) + owed (Some (c, place)))
       \<and> step_rel c st st'
       \<and> (\<forall>q. r = Some q \<longrightarrow> turns_left q < turns_left place)"
  proof (cases place)
    case At_acquire
    show ?thesis
    proof (cases "io_acquire (ctx_io ctx c)")
      case None
      then have "guard_contact ctx c st = (r, st')" using assms At_acquire by simp
      from guard_contact_shape[OF this] show ?thesis using At_acquire
        by (auto simp: owed_def)
    next
      case (Some e)
      then show ?thesis using assms At_acquire by (auto simp: owed_def step_rel_def)
    qed
  next
    case (At_json ok body)
    show ?thesis
    proof (cases body)
      case (Inl e)
      then show ?thesis using assms At_json by (auto simp: owed_def step_rel_def)
    next
      case (Inr data)
      then have "classify_segment ctx c ok data st = (r, st')" using assms At_json by simp
      from classify_segment_shape[OF this] show ?thesis using At_json
        by (auto simp: owed_def)
    qed
  qed (use assms in \<open>auto simp: owed_def step_rel_def pushWriteOp_def failed_outcome_def
         caught_outcome_def Let_def split: sum.splits option.splits prod.splits\<close>)
  then show "mset (map op_contact (writeOps st')) + owed (map_option (Pair c) r)
           = mset (map op_contact (writeOps st)) + owed (Some (c, place))"
    and "step_rel c st st'"
    and "\<forall>q. r = Some q \<longrightarrow> turns_left q < turns_left place"
    by blast+
qed

lemma begin_contact_shape:
  assumes "begin_contact ctx c st = (r, st')"
  shows "String_of (contactId c) \<notin> ctx_claimedIds ctx \<longrightarrow> r = None \<and> st' = st"
    and "String_of (contactId c) \<in> ctx_claimedIds ctx \<longrightarrow>
           mset (map op_contact (writeOps st')) + owed (map_option (Pair c) r)
             = mset (map op_contact (writeOps st)) + {#c#}"
    and "String_of (contactId c) \<in> ctx_claimedIds ctx \<longrightarrow> step_rel c st st'"
    and "\<forall>q. r = Some q \<longrightarrow> turns_left q \<le> 7"
proof -
  show "String_of (contactId c) \<notin> ctx_claimedIds ctx \<longrightarrow> r = None \<and> st' = st"
    using assms by (auto simp: begin_contact_def)
  show "String_of (contactId c) \<in> ctx_claimedIds ctx \<longrightarrow>
           mset (map op_contact (writeOps st')) + owed (map_option (Pair c) r)
             = mset (map op_contact (writeOps st)) + {#c#}"
    using assms guard_contact_shape(1)[of ctx c st r st']
    by (auto simp: begin_contact_def owed_def split: if_splits)
  show "String_of (contactId c) \<in> ctx_claimedIds ctx \<longrightarrow> step_rel c st st'"
    using assms guard_contact_shape(2)[of ctx c st r st']
    by (auto simp: begin_contact_def step_rel_def split: if_splits)
  show "\<forall>q. r = Some q \<longrightarrow> turns_left q \<le> 7"
    using assms guard_contact_shape(3)[of ctx c st r st']
    by (auto simp: begin_contact_def split: if_splits)
qed

lemma step_rel_ok:
  assumes "step_rel c st st'" and "String_of (contactId c) \<in> ctx_claimedIds ctx"
    and "shared_ok ctx st"
  shows "shared_ok ctx st'"
  using assms by (auto simp: step_rel_def shared_ok_def)

lemma owed_sum_update:
  fixes f :: "nat \<Rightarrow> (Contact \<times> suspension) option"
  assumes "w < n"
  shows "(\<Sum>i<n. owed ((f(w := v)) i)) + owed (f w) = (\<Sum>i<n. owed (f i)) + owed v"
proof -
  have fin: "finite {..<n}" and mem: "w \<in> {..<n}" using assms by auto
  have a: "(\<Sum>i<n. owed ((f(w := v)) i)) = owed v + (\<Sum>i\<in>{..<n} - {w}. owed ((f(w := v)) i))"
    using sum.remove[OF fin mem, of "\<lambda>i. owed ((f(w := v)) i)"] by simp
  have b: "(\<Sum>i<n. owed (f i)) = owed (f w) + (\<Sum>i\<in>{..<n} - {w}. owed (f i))"
    using sum.remove[OF fin mem, of "\<lambda>i. owed (f i)"] by simp
  have c: "(\<Sum>i\<in>{..<n} - {w}. owed ((f(w := v)) i)) = (\<Sum>i\<in>{..<n} - {w}. owed (f i))"
    by (rule sum.cong) auto
  show ?thesis unfolding a b c by (simp add: ac_simps)
qed

subsection \<open>The turns of the pool keep its invariant\<close>

lemma pool_inv_start: "pool_inv ctx batch n st (pool_start st)"
  by (simp add: pool_inv_def pool_start_def owed_def)

lemma worker_turn_idle:
  assumes "\<not> (w \<ge> n \<or> w \<in> returned ps)" and "running ps w = None"
  shows "nextIndex ps \<ge> length batch \<Longrightarrow>
           worker_turn ctx batch n ps w
             = ps\<lparr>nextIndex := nextIndex ps + 1, returned := insert w (returned ps)\<rparr>"
    and "nextIndex ps < length batch \<Longrightarrow>
           begin_contact ctx (batch ! nextIndex ps) (shared ps) = (r, st) \<Longrightarrow>
           worker_turn ctx batch n ps w
             = ps\<lparr>nextIndex := nextIndex ps + 1, pulls := pulls ps @ [(w, nextIndex ps)],
                  running := (running ps)(w := map_option (Pair (batch ! nextIndex ps)) r),
                  shared := st\<rparr>"
  using assms by (simp_all add: worker_turn_def Let_def)

lemma worker_turn_busy:
  assumes "\<not> (w \<ge> n \<or> w \<in> returned ps)" and "running ps w = Some (c, place)"
    and "resume ctx c place (shared ps) = (r, st)"
  shows "worker_turn ctx batch n ps w
           = ps\<lparr>running := (running ps)(w := map_option (Pair c) r), shared := st\<rparr>"
  using assms by (simp add: worker_turn_def)

lemma pool_inv_turn:
  assumes inv: "pool_inv ctx batch n st0 ps"
  shows "pool_inv ctx batch n st0 (worker_turn ctx batch n ps w)
       \<and> (shared_ok ctx (shared ps) \<longrightarrow> shared_ok ctx (shared (worker_turn ctx batch n ps w)))"
proof (cases "w \<ge> n \<or> w \<in> returned ps")
  case True
  then show ?thesis using inv by (simp add: worker_turn_def)
next
  case live: False
  then have wn: "w < n" by simp
  let ?cl = "\<lambda>c. String_of (contactId c) \<in> ctx_claimedIds ctx"
  let ?S = "\<Sum>i<n. owed (running ps i)"
  have g: "mset (map op_contact (writeOps (shared ps))) + ?S
      = mset (map op_contact (writeOps st0)) + mset (filter ?cl (take (nextIndex ps) batch))"
    using inv by (simp add: pool_inv_def)
  show ?thesis
  proof (cases "running ps w")
    case (Some cp)
    obtain c place where cp: "cp = (c, place)" by (cases cp)
    obtain r st where res: "resume ctx c place (shared ps) = (r, st)"
      by (cases "resume ctx c place (shared ps)")
    let ?ps' = "ps\<lparr>running := (running ps)(w := map_option (Pair c) r), shared := st\<rparr>"
    have turn: "worker_turn ctx batch n ps w = ?ps'"
      using worker_turn_busy[OF live _ res] Some cp by simp
    have "\<forall>w c place. running ps w = Some (c, place) \<longrightarrow> ?cl c"
      using inv unfolding pool_inv_def by blast
    then have clc: "?cl c" using Some cp by blast
    note sh = resume_shape[OF res]
    have ok': "shared_ok ctx (shared ps) \<longrightarrow> shared_ok ctx st"
      using step_rel_ok[OF sh(2) clc] by blast
    let ?S' = "\<Sum>i<n. owed (((running ps)(w := map_option (Pair c) r)) i)"
    have upd: "?S' + owed (running ps w) = ?S + owed (map_option (Pair c) r)"
      by (rule owed_sum_update[OF wn])
    have "(mset (map op_contact (writeOps st)) + ?S') + owed (running ps w)
        = mset (map op_contact (writeOps st)) + (?S' + owed (running ps w))"
      by (simp add: add.assoc)
    also have "\<dots> = mset (map op_contact (writeOps st)) + (?S + owed (map_option (Pair c) r))"
      using upd by simp
    also have "\<dots> = (mset (map op_contact (writeOps st)) + owed (map_option (Pair c) r)) + ?S"
      by (simp add: ac_simps)
    also have "\<dots> = (mset (map op_contact (writeOps (shared ps))) + owed (running ps w)) + ?S"
      using sh(1) Some cp by simp
    also have "\<dots> = (mset (map op_contact (writeOps (shared ps))) + ?S) + owed (running ps w)"
      by (simp add: ac_simps)
    finally have g': "mset (map op_contact (writeOps st)) + ?S'
        = mset (map op_contact (writeOps (shared ps))) + ?S"
      by simp
    have "pool_inv ctx batch n st0 ?ps'"
      unfolding pool_inv_def
    proof (intro conjI)
      show "map snd (pulls ?ps') = [0..<min (nextIndex ?ps') (length batch)]"
        using inv by (simp add: pool_inv_def)
      show "\<forall>p\<in>set (pulls ?ps'). fst p < n" using inv by (simp add: pool_inv_def)
      show "returned ?ps' \<subseteq> {..<n}" using inv by (simp add: pool_inv_def)
      show "returned ?ps' \<noteq> {} \<longrightarrow> length batch < nextIndex ?ps'"
        using inv by (simp add: pool_inv_def)
      show "\<forall>w\<in>returned ?ps'. running ?ps' w = None"
        using inv live by (auto simp: pool_inv_def)
      show "\<forall>w c place. running ?ps' w = Some (c, place) \<longrightarrow> ?cl c"
      proof (intro allI impI)
        fix w' c' place'
        assume run: "running ?ps' w' = Some (c', place')"
        show "?cl c'"
        proof (cases "w' = w")
          case True
          then have "map_option (Pair c) r = Some (c', place')" using run by simp
          then have "c' = c" by auto
          then show ?thesis using clc by simp
        next
          case False
          then have "running ps w' = Some (c', place')" using run by simp
          moreover have "\<forall>w c place. running ps w = Some (c, place) \<longrightarrow> ?cl c"
            using inv unfolding pool_inv_def by blast
          ultimately show ?thesis by blast
        qed
      qed
      show "mset (map op_contact (writeOps (shared ?ps'))) + (\<Sum>w<n. owed (running ?ps' w))
          = mset (map op_contact (writeOps st0)) + mset (filter ?cl (take (nextIndex ?ps') batch))"
        using g g' by simp
    qed
    then show ?thesis using turn ok' by simp
  next
    case idle: None
    show ?thesis
    proof (cases "nextIndex ps \<ge> length batch")
      case True
      let ?ps' = "ps\<lparr>nextIndex := nextIndex ps + 1, returned := insert w (returned ps)\<rparr>"
      have turn: "worker_turn ctx batch n ps w = ?ps'"
        using worker_turn_idle(1)[OF live idle True] .
      have "pool_inv ctx batch n st0 ?ps'"
        using inv idle wn True g by (auto simp: pool_inv_def min_def)
      then show ?thesis using turn by simp
    next
      case False
      then have lt: "nextIndex ps < length batch" by simp
      let ?c = "batch ! nextIndex ps"
      obtain r st where res: "begin_contact ctx ?c (shared ps) = (r, st)"
        by (cases "begin_contact ctx ?c (shared ps)")
      let ?ps' = "ps\<lparr>nextIndex := nextIndex ps + 1, pulls := pulls ps @ [(w, nextIndex ps)],
                  running := (running ps)(w := map_option (Pair ?c) r), shared := st\<rparr>"
      have turn: "worker_turn ctx batch n ps w = ?ps'"
        using worker_turn_idle(2)[OF live idle lt res] .
      note sh = begin_contact_shape[OF res]
      have r0: "returned ps = {}" using inv lt by (auto simp: pool_inv_def)
      have tk: "take (Suc (nextIndex ps)) batch = take (nextIndex ps) batch @ [?c]"
        using lt by (simp add: take_Suc_conv_app_nth)
      let ?S' = "\<Sum>i<n. owed (((running ps)(w := map_option (Pair ?c) r)) i)"
      have upd: "?S' + owed (running ps w) = ?S + owed (map_option (Pair ?c) r)"
        by (rule owed_sum_update[OF wn])
      then have upd': "?S' = ?S + owed (map_option (Pair ?c) r)"
        using idle by (simp add: owed_def)
      have ok': "shared_ok ctx (shared ps) \<longrightarrow> shared_ok ctx st"
      proof (cases "?cl ?c")
        case True
        then have "step_rel ?c (shared ps) st" using sh(3) by simp
        then show ?thesis using step_rel_ok[OF _ True] by blast
      next
        case False
        then show ?thesis using sh(1) by simp
      qed
      have g': "mset (map op_contact (writeOps st)) + ?S'
          = mset (map op_contact (writeOps st0)) + mset (filter ?cl (take (Suc (nextIndex ps)) batch))"
      proof (cases "?cl ?c")
        case True
        then have a: "mset (map op_contact (writeOps st)) + owed (map_option (Pair ?c) r)
             = mset (map op_contact (writeOps (shared ps))) + {#?c#}"
          using sh(2) by simp
        have "mset (map op_contact (writeOps st)) + ?S'
            = (mset (map op_contact (writeOps st)) + owed (map_option (Pair ?c) r)) + ?S"
          unfolding upd' by (simp add: ac_simps)
        also have "\<dots> = (mset (map op_contact (writeOps (shared ps))) + ?S) + {#?c#}"
          unfolding a by (simp add: ac_simps)
        finally show ?thesis using g True tk by simp
      next
        case False
        then have "r = None" "st = shared ps" using sh(1) by simp_all
        then show ?thesis using g False tk upd' by (simp add: owed_def)
      qed
      have "pool_inv ctx batch n st0 ?ps'"
        unfolding pool_inv_def
      proof (intro conjI)
        show "map snd (pulls ?ps') = [0..<min (nextIndex ?ps') (length batch)]"
          using inv lt by (simp add: pool_inv_def min_def)
        show "\<forall>p\<in>set (pulls ?ps'). fst p < n" using inv wn by (simp add: pool_inv_def)
        show "returned ?ps' \<subseteq> {..<n}" using inv by (simp add: pool_inv_def)
        show "returned ?ps' \<noteq> {} \<longrightarrow> length batch < nextIndex ?ps'"
          using r0 by simp
        show "\<forall>w\<in>returned ?ps'. running ?ps' w = None"
          using r0 by simp
        show "\<forall>w c place. running ?ps' w = Some (c, place) \<longrightarrow> ?cl c"
        proof (intro allI impI)
          fix w' c' place'
          assume run: "running ?ps' w' = Some (c', place')"
          show "?cl c'"
          proof (cases "w' = w")
            case True
            then have "map_option (Pair ?c) r = Some (c', place')" using run by simp
            then have "c' = ?c" "r \<noteq> None" by auto
            then show ?thesis using sh(1) by auto
          next
            case False
            then have "running ps w' = Some (c', place')" using run by simp
            moreover have "\<forall>w c place. running ps w = Some (c, place) \<longrightarrow> ?cl c"
              using inv unfolding pool_inv_def by blast
            ultimately show ?thesis by blast
          qed
        qed
        show "mset (map op_contact (writeOps (shared ?ps'))) + (\<Sum>w<n. owed (running ?ps' w))
            = mset (map op_contact (writeOps st0)) + mset (filter ?cl (take (nextIndex ?ps') batch))"
          using g' by simp
      qed
      then show ?thesis using turn ok' by simp
    qed
  qed
qed

lemma pool_inv_turns:
  "pool_inv ctx batch n st0 ps \<Longrightarrow>
   pool_inv ctx batch n st0 (foldl (worker_turn ctx batch n) ps sched)
   \<and> (shared_ok ctx (shared ps) \<longrightarrow>
          shared_ok ctx (shared (foldl (worker_turn ctx batch n) ps sched)))"
proof (induction sched arbitrary: ps)
  case Nil
  then show ?case by simp
next
  case (Cons w sched)
  note turn = pool_inv_turn[OF Cons.prems, of w]
  from turn have "pool_inv ctx batch n st0 (worker_turn ctx batch n ps w)" by simp
  from Cons.IH[OF this] turn show ?case by simp
qed

subsection \<open>The join of the pool\<close>

lemma returned_turn_mono: "returned ps \<subseteq> returned (worker_turn ctx batch n ps w)"
  by (auto simp: worker_turn_def Let_def split: option.splits prod.splits)

lemma returned_turns_mono: "returned ps \<subseteq> returned (foldl (worker_turn ctx batch n) ps sched)"
proof (induction sched arbitrary: ps)
  case Nil
  then show ?case by simp
next
  case (Cons w sched)
  have "returned ps \<subseteq> returned (worker_turn ctx batch n ps w)" by (rule returned_turn_mono)
  also have "\<dots> \<subseteq> returned (foldl (worker_turn ctx batch n) (worker_turn ctx batch n ps w) sched)"
    by (rule Cons.IH)
  finally show ?case by simp
qed

lemma turns_bound_decreases:
  assumes "w < n" and "w \<notin> returned (worker_turn ctx batch n ps w)"
  shows "turns_bound batch (worker_turn ctx batch n ps w) w < turns_bound batch ps w"
proof -
  have live: "\<not> (w \<ge> n \<or> w \<in> returned ps)"
    using assms returned_turn_mono[of ps ctx batch n w] by auto
  show ?thesis
  proof (cases "running ps w")
    case (Some cp)
    obtain c place where cp: "cp = (c, place)" by (cases cp)
    obtain r st where res: "resume ctx c place (shared ps) = (r, st)"
      by (cases "resume ctx c place (shared ps)")
    have turn: "worker_turn ctx batch n ps w
        = ps\<lparr>running := (running ps)(w := map_option (Pair c) r), shared := st\<rparr>"
      using worker_turn_busy[OF live _ res] Some cp by simp
    have pos: "0 < turns_left place" by (cases place) simp_all
    show ?thesis using turn Some cp resume_shape(3)[OF res] pos
      by (cases r) (simp_all add: turns_bound_def)
  next
    case idle: None
    show ?thesis
    proof (cases "nextIndex ps \<ge> length batch")
      case True
      then have "w \<in> returned (worker_turn ctx batch n ps w)"
        using worker_turn_idle(1)[OF live idle True] by simp
      then show ?thesis using assms(2) by simp
    next
      case False
      then have lt: "nextIndex ps < length batch" by simp
      obtain r st where res: "begin_contact ctx (batch ! nextIndex ps) (shared ps) = (r, st)"
        by (cases "begin_contact ctx (batch ! nextIndex ps) (shared ps)")
      note turn = worker_turn_idle(2)[OF live idle lt res]
      show ?thesis using turn idle lt begin_contact_shape(4)[OF res]
        by (cases r) (simp_all add: turns_bound_def)
    qed
  qed
qed

lemma worker_resumed_bound:
  assumes "w < n"
    and "w \<notin> returned (foldl (worker_turn ctx batch n) ps (replicate k w))"
  shows "k \<le> turns_bound batch ps w"
  using assms(2)
proof (induction k arbitrary: ps)
  case 0
  then show ?case by simp
next
  case (Suc k)
  let ?ps1 = "worker_turn ctx batch n ps w"
  from Suc.prems have fin: "w \<notin> returned (foldl (worker_turn ctx batch n) ?ps1 (replicate k w))"
    by simp
  then have n1: "w \<notin> returned ?ps1" using returned_turns_mono by blast
  from turns_bound_decreases[OF assms(1) n1]
  have "turns_bound batch ?ps1 w < turns_bound batch ps w" .
  moreover from Suc.IH[OF fin] have "k \<le> turns_bound batch ?ps1 w" .
  ultimately show ?case by simp
qed

lemma turns_bound_le: "turns_bound batch ps w \<le> 7 + 8 * Suc (length batch)"
proof -
  have "(case running ps w of None \<Rightarrow> 0 | Some (c, place) \<Rightarrow> turns_left place) \<le> 7"
  proof (cases "running ps w")
    case None
    then show ?thesis by simp
  next
    case (Some cp)
    obtain c place where "cp = (c, place)" by (cases cp)
    then show ?thesis using Some by (cases place) simp_all
  qed
  then show ?thesis by (simp add: turns_bound_def)
qed

lemma worker_resumed_returns:
  assumes "w < n"
  shows "w \<in> returned (foldl (worker_turn ctx batch n) ps (replicate (8 * Suc (Suc (length batch))) w))"
proof (rule ccontr)
  assume "w \<notin> returned (foldl (worker_turn ctx batch n) ps (replicate (8 * Suc (Suc (length batch))) w))"
  from worker_resumed_bound[OF assms this] turns_bound_le[of batch ps w] show False by simp
qed

lemma drain_returns:
  "m \<le> n \<Longrightarrow> {..<m} \<subseteq> returned (foldl (worker_turn ctx batch n) ps (drain m (length batch)))"
proof (induction m)
  case 0
  then show ?case by simp
next
  case (Suc m)
  let ?f = "worker_turn ctx batch n"
  let ?k = "8 * Suc (Suc (length batch))"
  let ?ps1 = "foldl ?f ps (drain m (length batch))"
  have split: "drain (Suc m) (length batch) = drain m (length batch) @ replicate ?k m"
    by (simp add: drain_def)
  have a: "{..<m} \<subseteq> returned ?ps1" using Suc by simp
  have b: "returned ?ps1 \<subseteq> returned (foldl ?f ?ps1 (replicate ?k m))"
    by (rule returned_turns_mono)
  have c: "m \<in> returned (foldl ?f ?ps1 (replicate ?k m))"
    using Suc.prems by (intro worker_resumed_returns) simp
  have "{..<Suc m} = insert m {..<m}" by auto
  then show ?case using a b c unfolding split by (simp del: replicate.simps)
qed

lemma runWorkers_joined:
  assumes "0 < concurrency"
  shows "pool_inv ctx batch (workerCount concurrency batch) st (runWorkers ctx concurrency batch sched st)"
    and "shared_ok ctx st \<longrightarrow> shared_ok ctx (shared (runWorkers ctx concurrency batch sched st))"
    and "returned (runWorkers ctx concurrency batch sched st) = {..<workerCount concurrency batch}"
    and "length batch \<le> nextIndex (runWorkers ctx concurrency batch sched st)"
    and "\<forall>w. running (runWorkers ctx concurrency batch sched st) w = None
            \<or> workerCount concurrency batch \<le> w"
proof -
  let ?n = "workerCount concurrency batch"
  let ?f = "worker_turn ctx batch ?n"
  let ?ps1 = "foldl ?f (pool_start st) sched"
  let ?ps2 = "foldl ?f ?ps1 (drain ?n (length batch))"
  have run: "runWorkers ctx concurrency batch sched st = ?ps2"
    by (simp add: runWorkers_def Let_def)
  have both: "pool_inv ctx batch ?n st ?ps2 \<and> (shared_ok ctx st \<longrightarrow> shared_ok ctx (shared ?ps2))"
  proof -
    have s0: "shared (pool_start st) = st" by (simp add: pool_start_def)
    have "foldl ?f (pool_start st) (sched @ drain ?n (length batch)) = ?ps2" by simp
    then show ?thesis
      using pool_inv_turns[OF pool_inv_start[of ctx batch ?n st],
          where sched = "sched @ drain ?n (length batch)"] s0
      by simp
  qed
  then have inv: "pool_inv ctx batch ?n st ?ps2"
    and ok: "shared_ok ctx st \<longrightarrow> shared_ok ctx (shared ?ps2)" by simp_all
  have ret: "{..<?n} \<subseteq> returned ?ps2" by (rule drain_returns) simp
  have ret_eq: "returned ?ps2 = {..<?n}" using inv ret by (auto simp: pool_inv_def)
  have idx: "length batch \<le> nextIndex ?ps2"
  proof (cases "batch = []")
    case True
    then show ?thesis by simp
  next
    case False
    then have "0 < ?n" using assms by (simp add: workerCount_def)
    then have "returned ?ps2 \<noteq> {}" using ret_eq by auto
    then show ?thesis using inv by (simp add: pool_inv_def)
  qed
  have idle: "\<forall>w. running ?ps2 w = None \<or> ?n \<le> w"
  proof
    fix w
    show "running ?ps2 w = None \<or> ?n \<le> w"
    proof (cases "w < ?n")
      case True
      then have "w \<in> returned ?ps2" using ret_eq by simp
      moreover have "\<forall>w \<in> returned ?ps2. running ?ps2 w = None"
        using inv unfolding pool_inv_def by blast
      ultimately show ?thesis by blast
    next
      case False
      then show ?thesis by simp
    qed
  qed
  show "pool_inv ctx batch ?n st (runWorkers ctx concurrency batch sched st)"
    and "shared_ok ctx st \<longrightarrow> shared_ok ctx (shared (runWorkers ctx concurrency batch sched st))"
    and "returned (runWorkers ctx concurrency batch sched st) = {..<?n}"
    and "length batch \<le> nextIndex (runWorkers ctx concurrency batch sched st)"
    and "\<forall>w. running (runWorkers ctx concurrency batch sched st) w = None \<or> ?n \<le> w"
    unfolding run using inv ok ret_eq idx idle by simp_all
qed

lemma runWorkers_outcomes:
  assumes "0 < concurrency"
  shows "mset (map op_contact (writeOps (shared (runWorkers ctx concurrency batch sched st))))
       = mset (map op_contact (writeOps st))
         + mset (filter (\<lambda>c. String_of (contactId c) \<in> ctx_claimedIds ctx) batch)"
    and "map snd (pulls (runWorkers ctx concurrency batch sched st)) = [0..<length batch]"
    and "\<forall>p \<in> set (pulls (runWorkers ctx concurrency batch sched st)).
            fst p < workerCount concurrency batch"
proof -
  let ?ps = "runWorkers ctx concurrency batch sched st"
  let ?n = "workerCount concurrency batch"
  note j = runWorkers_joined[OF assms, where batch = batch and sched = sched and ctx = ctx and st = st]
  have z: "(\<Sum>w<?n. owed (running ?ps w)) = {#}"
  proof -
    have "\<And>w. w < ?n \<Longrightarrow> owed (running ?ps w) = {#}"
    proof -
      fix w assume "w < ?n"
      moreover have "running ?ps w = None \<or> ?n \<le> w" using j(5) by blast
      ultimately have "running ?ps w = None" by simp
      then show "owed (running ?ps w) = {#}" by (simp add: owed_def)
    qed
    then show ?thesis by simp
  qed
  have tk: "take (nextIndex ?ps) batch = batch" using j(4) by simp
  show "mset (map op_contact (writeOps (shared ?ps)))
       = mset (map op_contact (writeOps st))
         + mset (filter (\<lambda>c. String_of (contactId c) \<in> ctx_claimedIds ctx) batch)"
    using j(1) z tk unfolding pool_inv_def by simp
  show "map snd (pulls ?ps) = [0..<length batch]"
    using j(1) j(4) unfolding pool_inv_def by (simp add: min_def)
  show "\<forall>p \<in> set (pulls ?ps). fst p < ?n"
    using j(1) unfolding pool_inv_def by blast
qed

subsection \<open>The batch step as a whole\<close>

lemma fresh_shared_ok:
  assumes "writeOps st = []" and "filter is_MetaSend (effects st) = []"
    and "filter is_ThroughputExceeded (effects st) = []"
  shows "shared_ok ctx st"
proof -
  have "\<And>x. MetaSend x \<notin> set (effects st)"
  proof
    fix x assume "MetaSend x \<in> set (effects st)"
    then have "MetaSend x \<in> set (filter is_MetaSend (effects st))" by simp
    then show False using assms(2) by simp
  qed
  then show ?thesis using assms by (simp add: shared_ok_def)
qed

lemma throughput_once_aux:
  "length (filter is_ThroughputExceeded (effects (snd (send_batch campaignId trace templateName env batch)))) \<le> 1"
proof -
  obtain ex st where body: "send_batch_body campaignId trace templateName env batch = (ex, st)"
    by (cases "send_batch_body campaignId trace templateName env batch")
  note fr = send_batch_frame[OF body]
  from send_batch_body_cases[OF body] show ?thesis
  proof
    assume "writeOps st = [] \<and> filter is_MetaSend (effects st) = []
        \<and> filter is_ThroughputExceeded (effects st) = [] \<and> ex \<noteq> Completes"
    then show ?thesis using fr by simp
  next
    assume "\<exists>claimedAt claimedIds st2.
             bulkClaimPendingForSend (env_claimNow env) (env_claimQuery env)
                (map (\<lambda>c. String_of (contactId c)) batch) = Inr (claimedAt, claimedIds)
             \<and> claimedIds \<noteq> {}
             \<and> writeOps st2 = [] \<and> effects st2 = [ClaimQuery (claim_ids (map (\<lambda>c. String_of (contactId c)) batch))]
             \<and> \<not> sawThroughput429 st2
             \<and> persist_results campaignId trace env
                  (shared (runWorkers (batch_ctx trace env claimedIds)
                             (concurrency_of (env_rawConcurrency env)) batch (env_schedule env) st2))
                 = (ex, st)"
    then obtain claimedAt claimedIds st2 where
      st2: "effects st2 = [ClaimQuery (claim_ids (map (\<lambda>c. String_of (contactId c)) batch))]"
        "writeOps st2 = []"
      and pr: "persist_results campaignId trace env
                  (shared (runWorkers (batch_ctx trace env claimedIds)
                             (concurrency_of (env_rawConcurrency env)) batch (env_schedule env) st2))
                 = (ex, st)"
      by blast
    let ?ctx = "batch_ctx trace env claimedIds"
    have ok0: "shared_ok ?ctx st2" by (rule fresh_shared_ok) (simp_all add: st2)
    have "shared_ok ?ctx (shared (runWorkers ?ctx (concurrency_of (env_rawConcurrency env)) batch
             (env_schedule env) st2))"
      using runWorkers_joined(2)[OF concurrency_of_pos] ok0 by blast
    then have "length (filter is_ThroughputExceeded
            (effects (shared (runWorkers ?ctx (concurrency_of (env_rawConcurrency env)) batch
             (env_schedule env) st2)))) \<le> 1"
      by (simp add: shared_ok_def)
    then show ?thesis using fr persist_results_frame[OF pr] by simp
  qed
qed

lemma unclaimed_aux:
  assumes claim: "bulkClaimPendingForSend (env_claimNow env) (env_claimQuery env)
            (map (\<lambda>c. String_of (contactId c)) batch) = Inr (claimedAt, claimedIds)"
  shows "(\<forall>c. MetaSend c \<in> set (effects (snd (send_batch campaignId trace templateName env batch)))
              \<longrightarrow> String_of (contactId c) \<in> claimedIds)
       \<and> (\<forall>op \<in> set (writeOps (snd (send_batch campaignId trace templateName env batch))).
              String_of (contactId (op_contact op)) \<in> claimedIds)"
proof -
  obtain ex st where body: "send_batch_body campaignId trace templateName env batch = (ex, st)"
    by (cases "send_batch_body campaignId trace templateName env batch")
  note fr = send_batch_frame[OF body]
  from send_batch_body_cases[OF body] show ?thesis
  proof
    assume "writeOps st = [] \<and> filter is_MetaSend (effects st) = []
        \<and> filter is_ThroughputExceeded (effects st) = [] \<and> ex \<noteq> Completes"
    then show ?thesis using fr by (simp add: MetaSend_filter)
  next
    assume "\<exists>claimedAt claimedIds st2.
             bulkClaimPendingForSend (env_claimNow env) (env_claimQuery env)
                (map (\<lambda>c. String_of (contactId c)) batch) = Inr (claimedAt, claimedIds)
             \<and> claimedIds \<noteq> {}
             \<and> writeOps st2 = [] \<and> effects st2 = [ClaimQuery (claim_ids (map (\<lambda>c. String_of (contactId c)) batch))]
             \<and> \<not> sawThroughput429 st2
             \<and> persist_results campaignId trace env
                  (shared (runWorkers (batch_ctx trace env claimedIds)
                             (concurrency_of (env_rawConcurrency env)) batch (env_schedule env) st2))
                 = (ex, st)"
    then obtain st2 where
      st2: "effects st2 = [ClaimQuery (claim_ids (map (\<lambda>c. String_of (contactId c)) batch))]"
        "writeOps st2 = []"
      and pr: "persist_results campaignId trace env
                  (shared (runWorkers (batch_ctx trace env claimedIds)
                             (concurrency_of (env_rawConcurrency env)) batch (env_schedule env) st2))
                 = (ex, st)"
      using claim by auto
    let ?ctx = "batch_ctx trace env claimedIds"
    let ?fin = "shared (runWorkers ?ctx (concurrency_of (env_rawConcurrency env)) batch
             (env_schedule env) st2)"
    have cl: "ctx_claimedIds ?ctx = claimedIds" by (simp add: batch_ctx_def)
    have ok0: "shared_ok ?ctx st2" by (rule fresh_shared_ok) (simp_all add: st2)
    have ok: "shared_ok ?ctx ?fin"
      using runWorkers_joined(2)[OF concurrency_of_pos] ok0 by blast
    have sends: "\<forall>x. MetaSend x \<in> set (effects ?fin) \<longrightarrow> String_of (contactId x) \<in> claimedIds"
      and ops: "\<forall>op \<in> set (writeOps ?fin). String_of (contactId (op_contact op)) \<in> claimedIds"
      using ok cl by (simp_all add: shared_ok_def)
    have eqs: "writeOps (snd (send_batch campaignId trace templateName env batch)) = writeOps ?fin"
       "filter is_MetaSend (effects (snd (send_batch campaignId trace templateName env batch)))
           = filter is_MetaSend (effects ?fin)"
      using fr persist_results_frame[OF pr] by simp_all
    show ?thesis
    proof (intro conjI allI impI ballI)
      fix c
      assume "MetaSend c \<in> set (effects (snd (send_batch campaignId trace templateName env batch)))"
      then have "MetaSend c \<in> set (effects ?fin)" using eqs(2) MetaSend_filter by metis
      then show "String_of (contactId c) \<in> claimedIds" using sends by simp
    next
      fix op
      assume "op \<in> set (writeOps (snd (send_batch campaignId trace templateName env batch)))"
      then show "String_of (contactId (op_contact op)) \<in> claimedIds" using eqs(1) ops by simp
    qed
  qed
qed

subsection \<open>A call that no other worker interleaves with\<close>

lemma run_alone_failed:
  assumes "\<not> nullish data"
  shows "run_alone (Suc (Suc (Suc k))) ctx c (classify_segment ctx c False data st)
     = (case send_failed ctx c data st of (None, st1) \<Rightarrow> st1 | (Some e, st1) \<Rightarrow> catch_contact ctx c e st1)"
proof (cases "ctx_adaptiveEnabled ctx \<and> error_code data = JNum 130429 \<and> \<not> sawThroughput429 st")
  case False
  then have dec: "(ctx_adaptiveEnabled ctx
      \<and> js_or (js_opt (js_prop data ''error'') ''code'') (JNum 0) = JNum 130429
      \<and> \<not> sawThroughput429 st) = False"
    by (simp add: error_code_def)
  show ?thesis using assms
    by (simp add: classify_segment_def send_condition_def send_failed_def failed_outcome_def
          error_code_def Let_def dec)
next
  case True
  then have dec: "(ctx_adaptiveEnabled ctx
      \<and> js_or (js_opt (js_prop data ''error'') ''code'') (JNum 0) = JNum 130429
      \<and> \<not> sawThroughput429 st) = True"
    by (simp add: error_code_def)
  show ?thesis
  proof (cases "io_recordThroughputExceeded (ctx_io ctx c)")
    case None
    then show ?thesis using assms dec
      by (simp add: classify_segment_def send_condition_def send_failed_def failed_outcome_def
            error_code_def Let_def)
  next
    case (Some e)
    then show ?thesis using assms dec
      by (simp add: classify_segment_def send_condition_def send_failed_def
            error_code_def Let_def catch_contact_def caught_outcome_def)
  qed
qed


lemma run_alone_classify:
  "run_alone (Suc (Suc (Suc k))) ctx c (classify_segment ctx c ok data st)
     = (case classify_response ctx c ok data st of
          (None, st1) \<Rightarrow> st1 | (Some e, st1) \<Rightarrow> catch_contact ctx c e st1)"
proof (cases "send_condition ok data")
  case (Inl e)
  then show ?thesis
    by (simp add: classify_segment_def classify_response_def catch_contact_def caught_outcome_def Let_def)
next
  case (Inr b)
  show ?thesis
  proof (cases b)
    case True
    then show ?thesis using Inr
      by (simp add: classify_segment_def classify_response_def sent_outcome_def Let_def)
  next
    case False
    show ?thesis
    proof (cases "nullish data")
      case True
      then show ?thesis using Inr False
        by (simp add: classify_segment_def classify_response_def send_failed_def catch_contact_def caught_outcome_def Let_def)
    next
      case nn: False
      have seg: "classify_segment ctx c ok data st = classify_segment ctx c False data st"
        using Inr False by (simp add: classify_segment_def send_condition_def)
      have "classify_response ctx c ok data st = send_failed ctx c data st"
        using Inr False by (simp add: classify_response_def)
      then show ?thesis unfolding seg using run_alone_failed[OF nn] by simp
    qed
  qed
qed

lemma run_alone_fetch:
  "run_alone (Suc (Suc (Suc (Suc (Suc (Suc k)))))) ctx c (Some At_request_trace, st)
     = (case (case io_fetch (ctx_io ctx c) of
                Inl e \<Rightarrow> (Some e, st\<lparr>effects := effects st @ [MetaSend c]\<rparr>)
              | Inr (ok, body) \<Rightarrow>
                  (case body of
                     Inl e \<Rightarrow> (Some e, st\<lparr>effects := effects st @ [MetaSend c]\<rparr>)
                   | Inr data \<Rightarrow>
                       classify_response ctx c ok data (st\<lparr>effects := effects st @ [MetaSend c]\<rparr>))) of
          (None, st1) \<Rightarrow> st1 | (Some e, st1) \<Rightarrow> catch_contact ctx c e st1)"
proof (cases "io_fetch (ctx_io ctx c)")
  case (Inl e)
  then show ?thesis by (simp add: catch_contact_def caught_outcome_def Let_def)
next
  case (Inr resp)
  obtain ok body where resp: "resp = (ok, body)" by (cases resp)
  show ?thesis
  proof (cases body)
    case (Inl e)
    then show ?thesis using Inr resp by (simp add: catch_contact_def caught_outcome_def Let_def)
  next
    case data: (Inr data)
    then show ?thesis using Inr resp by (simp add: run_alone_classify)
  qed
qed

lemma run_alone_guard:
  assumes "ctx_limiter ctx \<longrightarrow> io_acquire (ctx_io ctx c) = None"
  shows "run_alone (Suc (Suc (Suc (Suc (Suc (Suc k)))))) ctx c (guard_contact ctx c st) =
     (case try_contact ctx c st of (None, st1) \<Rightarrow> st1 | (Some e, st1) \<Rightarrow> catch_contact ctx c e st1)"
proof -
  have acq: "(if ctx_limiter ctx then io_acquire (ctx_io ctx c) else None) = None"
    using assms by simp
  show ?thesis
  proof (cases "io_precheck (ctx_io ctx c)")
    case (Inl e)
    then show ?thesis
      by (simp add: guard_contact_def try_contact_def acq Let_def catch_contact_def caught_outcome_def Let_def)
  next
    case (Inr pc)
    show ?thesis
    proof (cases pc)
      case (PrecheckSkip code reason)
      then show ?thesis using Inr
        by (simp add: guard_contact_def try_contact_def acq Let_def skip_contact_def skipped_outcome_def)
    next
      case (PrecheckOk phone)
      show ?thesis
      proof (cases "String_of (contactId c) \<in> ctx_optOutContactIds ctx")
        case True
        then show ?thesis using Inr PrecheckOk
          by (simp add: guard_contact_def try_contact_def acq Let_def skip_contact_def skipped_outcome_def)
      next
        case no_opt: False
        show ?thesis
        proof (cases "ctx_suppressionsByPhone ctx phone")
          case (Some reason)
          then show ?thesis using Inr PrecheckOk no_opt
            by (simp add: guard_contact_def try_contact_def acq Let_def skip_contact_def skipped_outcome_def)
        next
          case None
          show ?thesis
          proof (cases "io_payload (ctx_io ctx c)")
            case (Some e)
            then show ?thesis using Inr PrecheckOk no_opt None
              by (simp add: guard_contact_def try_contact_def acq Let_def catch_contact_def caught_outcome_def Let_def)
          next
            case no_err: None
            have g: "guard_contact ctx c st = (Some At_request_trace, st)"
              using Inr PrecheckOk no_opt None no_err by (simp add: guard_contact_def)
            have t: "try_contact ctx c st =
                (case io_fetch (ctx_io ctx c) of
                Inl e \<Rightarrow> (Some e, st\<lparr>effects := effects st @ [MetaSend c]\<rparr>)
              | Inr (ok, body) \<Rightarrow>
                  (case body of
                     Inl e \<Rightarrow> (Some e, st\<lparr>effects := effects st @ [MetaSend c]\<rparr>)
                   | Inr data \<Rightarrow>
                       classify_response ctx c ok data (st\<lparr>effects := effects st @ [MetaSend c]\<rparr>)))"
              using Inr PrecheckOk no_opt None no_err by (simp add: try_contact_def acq Let_def)
            show ?thesis unfolding g t by (rule run_alone_fetch)
          qed
        qed
      qed
    qed
  qed
qed

text \<open>A call that no other worker interleaves with computes \<open>processContact\<close>.\<close>

lemma run_alone_processContact:
  "run_alone 8 ctx c (begin_contact ctx c st) = processContact ctx c st"
proof (cases "String_of (contactId c) \<in> ctx_claimedIds ctx")
  case False
  then show ?thesis by (simp add: begin_contact_def processContact_def)
next
  case cl: True
  have e8: "(8::nat) = Suc (Suc (Suc (Suc (Suc (Suc (Suc (Suc 0)))))))" by simp
  have pc: "processContact ctx c st =
      (case try_contact ctx c st of (None, st1) \<Rightarrow> st1 | (Some e, st1) \<Rightarrow> catch_contact ctx c e st1)"
    using cl by (simp add: processContact_def)
  show ?thesis
  proof (cases "ctx_limiter ctx")
    case False
    then have b: "begin_contact ctx c st = guard_contact ctx c st"
      using cl by (simp add: begin_contact_def)
    have "ctx_limiter ctx \<longrightarrow> io_acquire (ctx_io ctx c) = None" using False by simp
    from run_alone_guard[OF this, of "Suc (Suc 0)" st] show ?thesis
      unfolding b pc e8 .
  next
    case lim: True
    then have b: "begin_contact ctx c st = (Some At_acquire, st)"
      using cl by (simp add: begin_contact_def)
    show ?thesis
    proof (cases "io_acquire (ctx_io ctx c)")
      case None
      then have "ctx_limiter ctx \<longrightarrow> io_acquire (ctx_io ctx c) = None" by simp
      from run_alone_guard[OF this, of "Suc 0" st] show ?thesis
        unfolding b pc e8 using None by simp
    next
      case (Some e)
      then have "try_contact ctx c st = (Some e, st)" using lim by (simp add: try_contact_def)
      then show ?thesis unfolding b pc e8 using Some by (simp add: catch_contact_def caught_outcome_def Let_def)
    qed
  qed
qed

subsection \<open>Evaluating the batch step\<close>

text \<open>
  Once every worker has returned, further turns change nothing: on a schedule that lets
  the workers finish, the pool is the fold over that schedule.
\<close>

lemma worker_turn_noop:
  "w \<ge> n \<or> w \<in> returned ps \<Longrightarrow> worker_turn ctx batch n ps w = ps"
  by (simp add: worker_turn_def)

lemma turns_after_join:
  "\<forall>w<n. w \<in> returned ps \<Longrightarrow> foldl (worker_turn ctx batch n) ps sched = ps"
proof (induction sched)
  case Nil
  then show ?case by simp
next
  case (Cons w sched)
  have "worker_turn ctx batch n ps w = ps"
    using Cons.prems by (intro worker_turn_noop) (metis not_le)
  then show ?case using Cons by simp
qed

lemma runWorkers_finished:
  assumes "set [0..<workerCount concurrency batch]
             \<subseteq> returned (foldl (worker_turn ctx batch (workerCount concurrency batch))
                                      (pool_start st) sched)"
  shows "runWorkers ctx concurrency batch sched st
       = foldl (worker_turn ctx batch (workerCount concurrency batch)) (pool_start st) sched"
proof -
  have "\<forall>w<workerCount concurrency batch.
          w \<in> returned (foldl (worker_turn ctx batch (workerCount concurrency batch)) (pool_start st) sched)"
    using assms by auto
  from turns_after_join[OF this] show ?thesis by (simp add: runWorkers_def Let_def)
qed

text \<open>Evaluation of the sample inputs.\<close>

lemma trim_sample: "trim ''a'' = ''a''" "trim ''b'' = ''b''" "trim ''c'' = ''c''"
  "trim '' a'' = ''a''"
  by (simp_all add: trim_def white_space_def ws_at_start_def)


lemmas pool_eval =
  runWorkers_finished workerCount_def concurrency_of_def upt_rec sample_schedule_def
  worker_turn_def pool_start_def begin_contact_def guard_contact_def classify_segment_def
  skipped_outcome_def sent_outcome_def failed_outcome_def caught_outcome_def error_code_def
  send_condition_def js_or_def js_opt_def pushWriteOp_def Let_def

lemmas step_eval =
  send_batch_def send_batch_body_def sample_env_def sample_contact_def String_of_def
  claim_ids_def trim_sample bulkClaimPendingForSend_def answer_with_def batch_start_def
  str_or_null_def batch_ctx_def no_suppression_def Let_def

lemmas batch_eval =
  step_eval sample_io_def sample_io_of_def io_timeout_for_a_def
  reply_throughput_def reply_sent_def reply_no_id_def reply_timeout_def
  persist_results_def update_campaign_counters_def pool_eval

subsection \<open>Claims about the batch step\<close>

text \<open>
  C4.  Within one execution of a batch step \<open>recordThroughputExceeded\<close> is called at
  most once, whatever the contacts of the batch answer and in whatever order the workers
  take their turns: the first contact that meets error code 130429 sets
  \<open>sawThroughput429\<close>, and the flag suppresses every later decrease of that batch.
\<close>

theorem throughput_decrease_at_most_once:
  "length (filter is_ThroughputExceeded
             (effects (snd (send_batch campaignId trace templateName env batch)))) \<le> 1"
  by (rule throughput_once_aux)

theorem throughput_decrease_at_most_once_witness:
  "length (filter is_ThroughputExceeded
             (effects (snd (send_batch ''camp'' ''trace'' ''tpl''
                (sample_env (Resolves (Some [''a'', ''b'']) None) (io_timeout_for_a reply_throughput))
                [sample_contact ''b'', sample_contact ''c'', sample_contact ''b''])))) = 1"
  using throughput_decrease_at_most_once
    [of "''camp''" "''trace''" "''tpl''"
        "sample_env (Resolves (Some [''a'', ''b'']) None) (io_timeout_for_a reply_throughput)"
        "[sample_contact ''b'', sample_contact ''c'', sample_contact ''b'']"]
  apply (simp add: step_eval)
  apply (simp add: batch_eval)
  done

text \<open>
  C1.  When the bulk claim made by a batch step returns the claimed set \<open>claimedIds\<close>:
  if that set is empty the step makes no request to the provider and records no
  outcome, and once it has reached the claim it returns without an exception; and for
  every contact whose id is not in the claimed set, no request is made and no outcome is
  recorded in that execution.
\<close>

theorem no_send_without_claim:
  assumes "bulkClaimPendingForSend (env_claimNow env) (env_claimQuery env)
             (map (\<lambda>c. String_of (contactId c)) batch) = Inr (claimedAt, claimedIds)"
  shows "(claimedIds = {} \<longrightarrow>
            filter is_MetaSend (effects (snd (send_batch campaignId trace templateName env batch))) = []
            \<and> writeOps (snd (send_batch campaignId trace templateName env batch)) = []
            \<and> (env_template env = Inr True \<and> (\<exists>s. env_statusAtBatchStart env = Inr s)
                 \<and> (env_adaptiveEnabled env \<longrightarrow> env_throttleState env = None)
               \<longrightarrow> fst (send_batch campaignId trace templateName env batch) = None))
       \<and> (\<forall>c. String_of (contactId c) \<notin> claimedIds \<longrightarrow>
              MetaSend c \<notin> set (effects (snd (send_batch campaignId trace templateName env batch)))
              \<and> c \<notin> set (map op_contact (writeOps (snd (send_batch campaignId trace templateName env batch)))))"
proof -
  let ?R = "snd (send_batch campaignId trace templateName env batch)"
  note aux = unclaimed_aux[OF assms, of campaignId trace templateName]
  have part2: "\<forall>c. String_of (contactId c) \<notin> claimedIds \<longrightarrow>
              MetaSend c \<notin> set (effects ?R) \<and> c \<notin> set (map op_contact (writeOps ?R))"
    using aux by auto
  have part1: "claimedIds = {} \<longrightarrow> filter is_MetaSend (effects ?R) = [] \<and> writeOps ?R = []"
  proof
    assume e: "claimedIds = {}"
    have "writeOps ?R = []"
    proof (cases "writeOps ?R")
      case Nil then show ?thesis .
    next
      case (Cons op ops)
      then have "op \<in> set (writeOps ?R)" by simp
      then show ?thesis using aux e by auto
    qed
    moreover have "filter is_MetaSend (effects ?R) = []"
    proof (cases "filter is_MetaSend (effects ?R)")
      case Nil then show ?thesis .
    next
      case (Cons x xs)
      then have x: "x \<in> set (filter is_MetaSend (effects ?R))" by simp
      then have ix: "is_MetaSend x" and mem: "x \<in> set (effects ?R)" by simp_all
      obtain c where "x = MetaSend c" using ix by (cases x) simp_all
      then have "MetaSend c \<in> set (effects ?R)" using mem by simp
      then show ?thesis using aux e by auto
    qed
    ultimately show "filter is_MetaSend (effects ?R) = [] \<and> writeOps ?R = []" by simp
  qed
  have part3: "claimedIds = {} \<longrightarrow>
      (env_template env = Inr True \<and> (\<exists>s. env_statusAtBatchStart env = Inr s)
          \<and> (env_adaptiveEnabled env \<longrightarrow> env_throttleState env = None)
        \<longrightarrow> fst (send_batch campaignId trace templateName env batch) = None)"
    using zero_claim_returns[of env batch claimedAt _ campaignId trace templateName] assms by blast
  show ?thesis using part1 part2 part3 by blast
qed

theorem no_send_without_claim_witness:
  "bulkClaimPendingForSend
      (env_claimNow (sample_env (Resolves (Some []) None) (io_timeout_for_a reply_sent)))
      (env_claimQuery (sample_env (Resolves (Some []) None) (io_timeout_for_a reply_sent)))
      (map (\<lambda>c. String_of (contactId c)) [sample_contact ''a'', sample_contact ''b''])
     = Inr (None, {})
   \<and> send_batch ''camp'' ''trace'' ''tpl''
        (sample_env (Resolves (Some []) None) (io_timeout_for_a reply_sent))
        [sample_contact ''a'', sample_contact ''b'']
     = (None, batch_start\<lparr>effects := [ClaimQuery [''a'', ''b''], StableBatch]\<rparr>)"
  using no_send_without_claim
    [of "sample_env (Resolves (Some []) None) (io_timeout_for_a reply_sent)"
        "[sample_contact ''a'', sample_contact ''b'']" None "{}" "''camp''" "''trace''" "''tpl''"]
  by (simp add: step_eval)

subsection \<open>Classification of a response\<close>




subsection \<open>Claims about the worker pool\<close>

text \<open>
  What the pool does guarantee, whatever the order of the turns: after the join the
  outcomes recorded are, counted with repetition, the entries of the batch whose id as
  written in the payload is in the claimed set; and an exception that reaches the
  \<open>catch\<close> of a call is recorded as one \<open>failed\<close> outcome with its message.
\<close>

lemma outcomes_after_join:
  "mset (map op_contact (writeOps (shared (runWorkers ctx (concurrency_of raw) batch sched st))))
     = mset (map op_contact (writeOps st))
       + mset (filter (\<lambda>c. String_of (contactId c) \<in> ctx_claimedIds ctx) batch)"
  by (rule runWorkers_outcomes(1)[OF concurrency_of_pos])

lemma caught_exception_recorded:
  "\<exists>st'. resume ctx c (At_catch_trace e) st = (None, st')
      \<and> writeOps st' = writeOps st @ [caught_outcome ctx c e]
      \<and> failedCount st' = failedCount st + 1"
  "op_contact (caught_outcome ctx c e) = c"
  "op_status (caught_outcome ctx c e) = St_failed"
  "error (op_opts (caught_outcome ctx c e)) = JStr (error_message e)"
  by (simp_all add: caught_outcome_def pushWriteOp_def Let_def)

text \<open>
  C6.  Two recipients for which the batch step does not record exactly one outcome.
  The payload check accepts an id with white space around it and the claim query sends
  it trimmed, so the store claims the row \<open>a\<close> for the recipient whose id is written
  \<open>" a"\<close>; \<open>processContact\<close> looks the untrimmed id up in the claimed set, does not find it
  and returns: the step ends normally with no request and no outcome for a recipient
  whose row it has moved to \<open>sending\<close>.  And the claim query removes repeated ids while
  the pool walks the batch as it is: a recipient listed twice is claimed once, sent to
  twice and gets two outcomes.
\<close>

theorem claimed_recipient_without_outcome:
  "payload_error [sample_contact '' a''] = None
   \<and> bulkClaimPendingForSend ''2026-01-01T00:00:00.000Z''
        (answer_with (Resolves (Some [''a'']) None)) ['' a'']
       = Inr (Some ''2026-01-01T00:00:00.000Z'', {''a''})
   \<and> send_batch ''camp'' ''trace'' ''tpl''
        (sample_env (Resolves (Some [''a'']) None) (sample_io_of reply_sent)) [sample_contact '' a'']
       = (None, batch_start\<lparr>firstDispatchAtInBatch := Some ''2026-01-01T00:00:00.000Z'',
                              effects := [ClaimQuery [''a''], StableBatch]\<rparr>)
   \<and> hd (effects (snd (send_batch ''camp'' ''trace'' ''tpl''
        (sample_env (Resolves (Some [''b'']) None) (sample_io_of reply_sent))
        [sample_contact ''b'', sample_contact ''b''])))
       = ClaimQuery [''b'']
   \<and> filter is_MetaSend (effects (snd (send_batch ''camp'' ''trace'' ''tpl''
        (sample_env (Resolves (Some [''b'']) None) (sample_io_of reply_sent))
        [sample_contact ''b'', sample_contact ''b''])))
       = [MetaSend (sample_contact ''b''), MetaSend (sample_contact ''b'')]
   \<and> map op_contact (writeOps (snd (send_batch ''camp'' ''trace'' ''tpl''
        (sample_env (Resolves (Some [''b'']) None) (sample_io_of reply_sent))
        [sample_contact ''b'', sample_contact ''b''])))
       = [sample_contact ''b'', sample_contact ''b'']
   \<and> map op_status (writeOps (snd (send_batch ''camp'' ''trace'' ''tpl''
        (sample_env (Resolves (Some [''b'']) None) (sample_io_of reply_sent))
        [sample_contact ''b'', sample_contact ''b''])))
       = [St_sent, St_sent]"
  apply (simp add: payload_error_def missingContactIds_def String_or_empty_def step_eval)
  apply (simp add: batch_eval)
  done

text \<open>
  C9.  The pool has \<open>min(concurrency, batch.length)\<close> workers, counted on the whole batch
  slice and not on the claimed set.  After the join every worker has returned; the
  calls \<open>processContact(batch[idx])\<close> made are one for each index \<open>0, ..., batch.length - 1\<close>
  of the slice, each made by one of these workers, because reading and advancing the
  cursor is never interrupted; and the filter on the claimed set is inside
  \<open>processContact\<close>: the contacts that have an outcome afterwards are those that had one
  before and the entries of the slice whose id is in the claimed set.
\<close>

theorem pool_workers_and_cursor:
  "workerCount (concurrency_of raw) batch = min (concurrency_of raw) (length batch)
   \<and> returned (runWorkers ctx (concurrency_of raw) batch sched st)
        = {..<workerCount (concurrency_of raw) batch}
   \<and> map snd (pulls (runWorkers ctx (concurrency_of raw) batch sched st)) = [0..<length batch]
   \<and> (\<forall>p \<in> set (pulls (runWorkers ctx (concurrency_of raw) batch sched st)).
          fst p < workerCount (concurrency_of raw) batch)
   \<and> set (map op_contact (writeOps (shared (runWorkers ctx (concurrency_of raw) batch sched st))))
        = set (map op_contact (writeOps st))
          \<union> {c \<in> set batch. String_of (contactId c) \<in> ctx_claimedIds ctx}"
proof -
  let ?ps = "runWorkers ctx (concurrency_of raw) batch sched st"
  note j = runWorkers_joined[OF concurrency_of_pos, where ctx = ctx and batch = batch
      and sched = sched and st = st and raw1 = raw]
  note out = runWorkers_outcomes[OF concurrency_of_pos, where ctx = ctx and batch = batch
      and sched = sched and st = st and raw1 = raw]
  have "set_mset (mset (map op_contact (writeOps (shared ?ps))))
      = set_mset (mset (map op_contact (writeOps st))
          + mset (filter (\<lambda>c. String_of (contactId c) \<in> ctx_claimedIds ctx) batch))"
    using out(1) by simp
  then have s: "set (map op_contact (writeOps (shared ?ps)))
      = set (map op_contact (writeOps st))
          \<union> {c \<in> set batch. String_of (contactId c) \<in> ctx_claimedIds ctx}"
    by (simp only: set_mset_mset set_mset_union set_filter)
  show ?thesis using j(3) out(2) out(3) s by (simp add: workerCount_def)
qed

theorem pool_workers_and_cursor_witness:
  "map snd (pulls (runWorkers
       (batch_ctx ''trace'' (sample_env (Resolves (Some [''a'']) None) (sample_io_of reply_sent)) {''a''})
       (concurrency_of (Some 3)) [sample_contact ''a'', sample_contact ''b'', sample_contact ''c'']
       [2, 0, 1] batch_start)) = [0, 1, 2]
   \<and> card (returned (runWorkers
       (batch_ctx ''trace'' (sample_env (Resolves (Some [''a'']) None) (sample_io_of reply_sent)) {''a''})
       (concurrency_of (Some 3)) [sample_contact ''a'', sample_contact ''b'', sample_contact ''c'']
       [2, 0, 1] batch_start)) = 3
   \<and> set (map op_contact (writeOps (shared (runWorkers
       (batch_ctx ''trace'' (sample_env (Resolves (Some [''a'']) None) (sample_io_of reply_sent)) {''a''})
       (concurrency_of (Some 3)) [sample_contact ''a'', sample_contact ''b'', sample_contact ''c'']
       [2, 0, 1] batch_start)))) = {sample_contact ''a''}"
  using pool_workers_and_cursor
    [where raw = "Some 3"
       and batch = "[sample_contact ''a'', sample_contact ''b'', sample_contact ''c'']"
       and ctx = "batch_ctx ''trace'' (sample_env (Resolves (Some [''a'']) None) (sample_io_of reply_sent)) {''a''}"
       and sched = "[2, 0, 1]" and st = batch_start]
  by (auto simp: workerCount_def concurrency_of_def upt_rec batch_ctx_def batch_start_def
        sample_contact_def String_of_def)

theorem worker_count_counts_whole_batch:
  "card (returned (runWorkers
       (batch_ctx ''trace'' (sample_env (Resolves (Some [''a'']) None) (sample_io_of reply_sent)) {''a''})
       (concurrency_of (Some 3)) [sample_contact ''a'', sample_contact ''b'', sample_contact ''c'']
       [2, 0, 1] batch_start)) = 3
   \<and> min (concurrency_of (Some 3))
         (card (ctx_claimedIds
            (batch_ctx ''trace'' (sample_env (Resolves (Some [''a'']) None) (sample_io_of reply_sent)) {''a''}))) = 1
   \<and> length (writeOps (shared (runWorkers
       (batch_ctx ''trace'' (sample_env (Resolves (Some [''a'']) None) (sample_io_of reply_sent)) {''a''})
       (concurrency_of (Some 3)) [sample_contact ''a'', sample_contact ''b'', sample_contact ''c'']
       [2, 0, 1] batch_start))) = 1"
proof -
  let ?ctx = "batch_ctx ''trace'' (sample_env (Resolves (Some [''a'']) None) (sample_io_of reply_sent)) {''a''}"
  let ?batch = "[sample_contact ''a'', sample_contact ''b'', sample_contact ''c'']"
  let ?ps = "runWorkers ?ctx (concurrency_of (Some 3)) ?batch [2, 0, 1] batch_start"
  have "returned ?ps = {..<workerCount (concurrency_of (Some 3)) ?batch}"
    by (rule runWorkers_joined(3)[OF concurrency_of_pos])
  then have a: "card (returned ?ps) = 3" by (simp add: workerCount_def concurrency_of_def)
  have b: "min (concurrency_of (Some 3)) (card (ctx_claimedIds ?ctx)) = 1"
    by (simp add: batch_ctx_def concurrency_of_def)
  have "size (mset (map op_contact (writeOps (shared ?ps))))
      = size (mset (map op_contact (writeOps batch_start))
          + mset (filter (\<lambda>c. String_of (contactId c) \<in> ctx_claimedIds ?ctx) ?batch))"
    using runWorkers_outcomes(1)[OF concurrency_of_pos, where ctx = ?ctx and batch = ?batch
        and sched = "[2, 0, 1]" and st = batch_start and raw1 = "Some 3"]
    by simp
  then have c: "length (writeOps (shared ?ps)) = 1"
    by (simp add: batch_ctx_def batch_start_def sample_contact_def String_of_def)
  show ?thesis using a b c by simp
qed

subsection \<open>Claims about the claim query and the payload\<close>

text \<open>
  C5.  When the batch step issues the claim query: if the store answers with an error
  object, \<open>bulkClaimPendingForSend\<close> returns no claim time and an empty claimed set, and
  the step ends without an exception, having made no request to the provider, recorded
  no outcome and skipped the counter update; only a query whose promise rejects makes
  the claim call throw, and then the step throws the same exception.
\<close>

theorem claim_error_is_empty_claim:
  assumes "claim_ids (map (\<lambda>c. String_of (contactId c)) batch) \<noteq> []"
    and "env_template env = Inr True"
    and "env_statusAtBatchStart env = Inr s"
    and "s \<noteq> Some PAUSED"
    and "env_adaptiveEnabled env \<longrightarrow> env_throttleState env = None"
  shows "(env_claimQuery env (claim_ids (map (\<lambda>c. String_of (contactId c)) batch))
            = Resolves data (Some msg) \<longrightarrow>
          bulkClaimPendingForSend (env_claimNow env) (env_claimQuery env)
              (map (\<lambda>c. String_of (contactId c)) batch) = Inr (None, {})
          \<and> send_batch campaignId trace templateName env batch =
              (None, batch_start\<lparr>effects :=
                 ClaimQuery (claim_ids (map (\<lambda>c. String_of (contactId c)) batch))
                   # (if env_adaptiveEnabled env then [StableBatch] else [])\<rparr>))
       \<and> (env_claimQuery env (claim_ids (map (\<lambda>c. String_of (contactId c)) batch))
            = Rejects e \<longrightarrow>
          bulkClaimPendingForSend (env_claimNow env) (env_claimQuery env)
              (map (\<lambda>c. String_of (contactId c)) batch) = Inl e
          \<and> fst (send_batch campaignId trace templateName env batch) = Some e
          \<and> filter is_MetaSend (effects (snd (send_batch campaignId trace templateName env batch))) = [])"
  using assms
  by (auto simp: send_batch_def send_batch_body_def bulkClaimPendingForSend_def Let_def
        batch_start_def str_or_null_def)

theorem claim_error_is_empty_claim_witness:
  "send_batch ''camp'' ''trace'' ''tpl''
      (sample_env (Resolves None (Some ''connection refused'')) (sample_io_of reply_sent))
      [sample_contact ''a'']
     = (None, batch_start\<lparr>effects := [ClaimQuery [''a''], StableBatch]\<rparr>)
   \<and> fst (send_batch ''camp'' ''trace'' ''tpl''
      (sample_env (Rejects (Error ''fetch failed'')) (sample_io_of reply_sent))
      [sample_contact ''a'']) = Some (Error ''fetch failed'')"
  using claim_error_is_empty_claim
    [where batch = "[sample_contact ''a'']"
       and env = "sample_env (Resolves None (Some ''connection refused'')) (sample_io_of reply_sent)"
       and s = "Some SENDING" and data = None and msg = "''connection refused''"
       and campaignId = "''camp''" and trace = "''trace''" and templateName = "''tpl''"]
    claim_error_is_empty_claim
    [where batch = "[sample_contact ''a'']"
       and env = "sample_env (Rejects (Error ''fetch failed'')) (sample_io_of reply_sent)"
       and s = "Some SENDING" and e = "Error ''fetch failed''"
       and campaignId = "''camp''" and trace = "''trace''" and templateName = "''tpl''"]
  by (simp add: step_eval)

theorem claim_error_not_propagated:
  "bulkClaimPendingForSend ''2026-01-01T00:00:00.000Z''
      (answer_with (Resolves None (Some ''connection refused''))) [''a''] = Inr (None, {})
   \<and> fst (send_batch ''camp'' ''trace'' ''tpl''
      (sample_env (Resolves None (Some ''connection refused'')) (sample_io_of reply_sent))
      [sample_contact ''a'']) = None"
  by (simp add: step_eval)

text \<open>A run on a well-formed payload, for comparison: the steps run in order.\<close>

lemma workflow_sample_run:
  "fst (workflow ''camp'' ''trace'' ''tpl'' sample_workflow_env [sample_contact ''a'']) = None
   \<and> hd (snd (workflow ''camp'' ''trace'' ''tpl'' sample_workflow_env [sample_contact ''a'']))
       = InitCampaign [SetStatus SENDING, SetStartedAt (Some ''2026-01-01T00:00:00.000Z''),
                       SetCompletedAt None]
   \<and> filter is_MetaSend (snd (workflow ''camp'' ''trace'' ''tpl'' sample_workflow_env [sample_contact ''a'']))
       = [MetaSend (sample_contact ''a'')]"
  by (simp add: workflow_def payload_error_def missingContactIds_def init_campaign_def
        complete_step_def sample_workflow_env_def sample_batch_env_def BATCH_SIZE_def
        String_or_empty_def batch_eval)

text \<open>
  C8.  If some recipient of the payload has no \<open>contactId\<close>, or one that is empty or
  only white space, the run ends at once with the error of the payload check: no step
  has run, so the campaign was not marked as sending, no claim query was issued and no
  request was made.
\<close>

theorem missing_contact_id_fails_run:
  assumes "c \<in> set contacts"
    and "contactId c = None \<or> (\<exists>s. contactId c = Some s \<and> trim s = [])"
  shows "\<exists>n sample. workflow campaignId trace templateName env contacts
            = (Some (PayloadInvalid n sample), []) \<and> 0 < n"
proof -
  have "String_or_empty (contactId c) = [] \<or> length (trim (String_of (contactId c))) = 0"
    using assms(2) by (auto simp: String_or_empty_def String_of_def)
  then have "c \<in> set (missingContactIds contacts)"
    using assms(1) by (simp add: missingContactIds_def)
  then have "0 < length (missingContactIds contacts)" by (cases "missingContactIds contacts") auto
  then show ?thesis by (simp add: workflow_def payload_error_def Let_def)
qed

theorem missing_contact_id_fails_run_witness:
  "workflow ''camp'' ''trace'' ''tpl'' sample_workflow_env
      [sample_contact ''a'', contact_without_id]
     = (Some (PayloadInvalid 1 [(''+5511888888888'', ''Maria'')]), [])"
  using missing_contact_id_fails_run
    [where c = contact_without_id and contacts = "[sample_contact ''a'', contact_without_id]"
       and campaignId = "''camp''" and trace = "''trace''" and templateName = "''tpl''"
       and env = sample_workflow_env]
  by (simp add: workflow_def payload_error_def missingContactIds_def Let_def
        sample_contact_def contact_without_id_def String_or_empty_def String_of_def
        trim_sample)

subsection \<open>Claims about the rows and the campaign\<close>

lemma upsertRow_stamps:
  "map_of (upsertRow campaignId trace now normalizeText op) Col_sent_at
     = Some (if op_status op = St_sent then JStr now else JNull)"
  "map_of (upsertRow campaignId trace now normalizeText op) Col_failed_at
     = Some (if op_status op = St_failed then JStr now else JNull)"
  "map_of (upsertRow campaignId trace now normalizeText op) Col_skipped_at
     = Some (if op_status op = St_skipped then JStr now else JNull)"
  by (cases "op_status op"; simp add: upsertRow_def Let_def)+

text \<open>
  Every row of the bulk upsert carries the three terminal stamps, exactly one of them
  set, and a \<open>sent\<close> row sets every failure and skip column to NULL: whatever the stored
  row held, it satisfies the invariant after the upsert.
\<close>

lemma bulk_upsert_row_exclusive:
  "terminal_stamps (write_row row (upsertRow campaignId trace now normalizeText op)) = 1"
  by (cases "op_status op"; simp add: terminal_stamps_def write_row_def upsertRow_stamps)

lemma bulk_upsert_sent_clears:
  assumes "op_status op = St_sent" and "c \<in> set failure_and_skip_columns"
  shows "write_row row (upsertRow campaignId trace now normalizeText op) c = JNull"
  using assms
  by (auto simp: failure_and_skip_columns_def write_row_def upsertRow_def Let_def)

text \<open>
  C3.  The fallback path does not keep the invariant that the bulk path keeps.  A
  contact skipped by an earlier run and queued again has a row with \<open>skipped_at\<close> and the
  skip fields set; when its outcome \<open>failed\<close> is written by \<open>updateContactStatus\<close>, the row
  ends with two terminal stamps and the stale skip code, while the bulk upsert of the
  same outcome leaves one stamp and no skip code.  In the same way a \<open>sent\<close> outcome
  written by \<open>updateContactStatus\<close> over a row that failed before keeps \<open>failed_at\<close> and
  the failure code.
\<close>

theorem fallback_update_keeps_stale_fields:
  "terminal_stamps (write_row requeued_row
      (updateContactStatus ''2026-01-01T00:00:02.000Z'' take_text (op_status failed_op) (op_opts failed_op))) = 2
   \<and> write_row requeued_row
      (updateContactStatus ''2026-01-01T00:00:02.000Z'' take_text (op_status failed_op) (op_opts failed_op))
      Col_skip_code = JStr ''MISSING_REQUIRED_PARAM''
   \<and> terminal_stamps (write_row requeued_row
      (upsertRow ''camp'' ''trace'' ''2026-01-01T00:00:02.000Z'' take_text failed_op)) = 1
   \<and> write_row requeued_row
      (upsertRow ''camp'' ''trace'' ''2026-01-01T00:00:02.000Z'' take_text failed_op)
      Col_skip_code = JNull
   \<and> terminal_stamps (write_row refailed_row
      (updateContactStatus ''2026-01-01T00:00:02.000Z'' take_text (op_status sent_op) (op_opts sent_op))) = 2
   \<and> write_row refailed_row
      (updateContactStatus ''2026-01-01T00:00:02.000Z'' take_text (op_status sent_op) (op_opts sent_op))
      Col_failure_code = JNum 131026
   \<and> write_row refailed_row
      (upsertRow ''camp'' ''trace'' ''2026-01-01T00:00:02.000Z'' take_text sent_op)
      Col_failure_code = JNull"
  by (simp add: terminal_stamps_def write_row_def updateContactStatus_def upsertRow_def
        requeued_row_def refailed_row_def failed_op_def sent_op_def no_opts_def js_or_def
        take_text_def Let_def)

text \<open>
  C10.  The \<open>lastSentAt\<close> written by the counter update of a batch is the value of
  \<open>safeLastSentAt\<close>.  When the batch sent nothing it is the stored value.  It differs from
  the stored value only if it is the candidate of the batch and either nothing was
  stored or both parse and the candidate is strictly later.  So a stored instant never
  moves backwards: if the stored value parses, the value written parses to the same or
  a later instant.
\<close>

theorem last_sent_at_never_moves_back:
  "last (counters_update Date_parse campaign st)
      = SetLastSentAt (safeLastSentAt Date_parse (lastSentAt campaign) (lastSentAtInBatch st))
   \<and> (str_or_null candidate = None \<longrightarrow>
         safeLastSentAt Date_parse existing candidate = str_or_null existing)
   \<and> (safeLastSentAt Date_parse existing candidate \<noteq> str_or_null existing \<longrightarrow>
         safeLastSentAt Date_parse existing candidate = str_or_null candidate
         \<and> (str_or_null existing = None
            \<or> (\<exists>ex cand a b. existing = Some ex \<and> candidate = Some cand
                  \<and> Date_parse ex = Some a \<and> Date_parse cand = Some b \<and> a < b)))
   \<and> (\<forall>ex a. str_or_null existing = Some ex \<and> Date_parse ex = Some a \<longrightarrow>
         (\<exists>r b. safeLastSentAt Date_parse existing candidate = Some r
                \<and> Date_parse r = Some b \<and> a \<le> b))"
proof -
  have norm: "\<And>x y. str_or_null x = Some y \<longleftrightarrow> x = Some y \<and> y \<noteq> []"
    "\<And>x. str_or_null x = None \<longleftrightarrow> x = None \<or> x = Some []"
    "\<And>y. y \<noteq> [] \<Longrightarrow> str_or_null (Some y) = Some y"
    by (auto simp: str_or_null_def split: option.splits list.splits)
  have a: "last (counters_update Date_parse campaign st)
      = SetLastSentAt (safeLastSentAt Date_parse (lastSentAt campaign) (lastSentAtInBatch st))"
    by (simp add: counters_update_def)
  have b: "str_or_null candidate = None \<longrightarrow>
         safeLastSentAt Date_parse existing candidate = str_or_null existing"
    by (simp add: safeLastSentAt_def)
  have c: "safeLastSentAt Date_parse existing candidate \<noteq> str_or_null existing \<longrightarrow>
         safeLastSentAt Date_parse existing candidate = str_or_null candidate
         \<and> (str_or_null existing = None
            \<or> (\<exists>ex cand a b. existing = Some ex \<and> candidate = Some cand
                  \<and> Date_parse ex = Some a \<and> Date_parse cand = Some b \<and> a < b))"
    by (auto simp: safeLastSentAt_def Let_def str_or_def norm
             split: option.splits if_splits)
  have d: "\<forall>ex a. str_or_null existing = Some ex \<and> Date_parse ex = Some a \<longrightarrow>
         (\<exists>r b. safeLastSentAt Date_parse existing candidate = Some r
                \<and> Date_parse r = Some b \<and> a \<le> b)"
    by (auto simp: safeLastSentAt_def Let_def str_or_def norm
             split: option.splits if_splits)
  show ?thesis using a b c d by blast
qed

theorem last_sent_at_never_moves_back_witness:
  "safeLastSentAt sample_parse (Some ''2026-01-01T00:00:01.000Z'') (Some ''2026-01-01T00:00:00.000Z'')
     = Some ''2026-01-01T00:00:01.000Z''
   \<and> safeLastSentAt sample_parse (Some ''2026-01-01T00:00:00.000Z'') (Some ''2026-01-01T00:00:01.000Z'')
     = Some ''2026-01-01T00:00:01.000Z''
   \<and> safeLastSentAt sample_parse (Some ''2026-01-01T00:00:01.000Z'') None
     = Some ''2026-01-01T00:00:01.000Z''
   \<and> safeLastSentAt sample_parse None (Some ''2026-01-01T00:00:00.000Z'')
     = Some ''2026-01-01T00:00:00.000Z''"
  using last_sent_at_never_moves_back
    [where Date_parse = sample_parse and existing = "Some ''2026-01-01T00:00:01.000Z''"
       and candidate = "Some ''2026-01-01T00:00:00.000Z''"]
  by (simp add: safeLastSentAt_def str_or_null_def str_or_def sample_parse_def Let_def)

subsection \<open>The completion step\<close>

text \<open>
  C7.  When the step \<open>complete-campaign\<close> has read the campaign, it makes one update of the
  campaign, with a status and \<open>completedAt\<close> set to the time of the step, and ends as that
  update ends; the status is FAILED if and only if a campaign was found whose failed and
  skipped counters add up to its recipient count, which is positive, and COMPLETED in
  every other case.  When the read throws, the step throws and updates nothing.  And a
  run whose payload is accepted and whose earlier steps all end normally ends with that
  step: its result is the result of the step and its last calls are those of the step.
\<close>

theorem completion_status:
  "(\<forall>campaign. wf_finalCampaign env = Inr campaign \<longrightarrow>
      (\<exists>st. complete_step env =
               (wf_completeUpdate env,
                [UpdateCampaign [SetStatus st, SetCompletedAt (Some (wf_completeNow env))]])
           \<and> (st = FAILED \<longleftrightarrow>
                (\<exists>c. campaign = Some c \<and> failed c + skipped c = recipients c \<and> recipients c > 0))
           \<and> (st \<noteq> FAILED \<longrightarrow> st = COMPLETED)))
   \<and> (\<forall>e. wf_finalCampaign env = Inl e \<longrightarrow> complete_step env = (Some e, []))
   \<and> (payload_error contacts = None \<and> fst (init_campaign env) = None
        \<and> fst (run_batches campaignId trace templateName env 0
                  (splitBatches (wf_rawBatchSize env) 0 contacts)) = None
      \<longrightarrow> workflow campaignId trace templateName env contacts
            = (fst (complete_step env),
               snd (init_campaign env)
               @ snd (run_batches campaignId trace templateName env 0
                        (splitBatches (wf_rawBatchSize env) 0 contacts))
               @ snd (complete_step env)))"
proof (intro conjI allI impI)
  fix campaign
  assume r: "wf_finalCampaign env = Inr campaign"
  show "\<exists>st. complete_step env =
               (wf_completeUpdate env,
                [UpdateCampaign [SetStatus st, SetCompletedAt (Some (wf_completeNow env))]])
           \<and> (st = FAILED \<longleftrightarrow>
                (\<exists>c. campaign = Some c \<and> failed c + skipped c = recipients c \<and> recipients c > 0))
           \<and> (st \<noteq> FAILED \<longrightarrow> st = COMPLETED)"
    using r by (cases campaign) (auto simp: complete_step_def complete_campaign_def finalStatus_def)
next
  fix e
  assume "wf_finalCampaign env = Inl e"
  then show "complete_step env = (Some e, [])" by (simp add: complete_step_def)
next
  let ?rb = "run_batches campaignId trace templateName env 0
                  (splitBatches (wf_rawBatchSize env) 0 contacts)"
  assume a: "payload_error contacts = None \<and> fst (init_campaign env) = None \<and> fst ?rb = None"
  obtain r1 es1 where i: "init_campaign env = (r1, es1)" by (cases "init_campaign env")
  obtain r2 es2 where b: "?rb = (r2, es2)" by (cases ?rb)
  obtain r3 es3 where c: "complete_step env = (r3, es3)" by (cases "complete_step env")
  have "r1 = None" "r2 = None" using a i b by simp_all
  then show "workflow campaignId trace templateName env contacts
            = (fst (complete_step env), snd (init_campaign env) @ snd ?rb @ snd (complete_step env))"
    using a i b c by (simp add: workflow_def)
qed

theorem completion_status_witness:
  "complete_step (sample_workflow_env\<lparr>wf_finalCampaign := Inr (Some all_failed_campaign)\<rparr>)
     = (None, [UpdateCampaign [SetStatus FAILED, SetCompletedAt (Some ''2026-01-01T00:00:09.000Z'')]])
   \<and> complete_step (sample_workflow_env\<lparr>wf_finalCampaign := Inr (Some partly_sent_campaign)\<rparr>)
     = (None, [UpdateCampaign [SetStatus COMPLETED, SetCompletedAt (Some ''2026-01-01T00:00:09.000Z'')]])
   \<and> complete_step (sample_workflow_env\<lparr>wf_finalCampaign := Inl (Error ''fetch failed'')\<rparr>)
     = (Some (Error ''fetch failed''), [])
   \<and> fst (workflow ''camp'' ''trace'' ''tpl''
        (sample_workflow_env\<lparr>wf_finalCampaign := Inr (Some all_failed_campaign)\<rparr>)
        [sample_contact ''a'']) = None
   \<and> last (snd (workflow ''camp'' ''trace'' ''tpl''
        (sample_workflow_env\<lparr>wf_finalCampaign := Inr (Some all_failed_campaign)\<rparr>)
        [sample_contact ''a'']))
     = UpdateCampaign [SetStatus FAILED, SetCompletedAt (Some ''2026-01-01T00:00:09.000Z'')]"
  using completion_status
    [where env = "sample_workflow_env\<lparr>wf_finalCampaign := Inr (Some all_failed_campaign)\<rparr>"
       and contacts = "[sample_contact ''a'']"
       and campaignId = "''camp''" and trace = "''trace''" and templateName = "''tpl''"]
  by (simp add: payload_error_def missingContactIds_def init_campaign_def
        complete_step_def complete_campaign_def finalStatus_def all_failed_campaign_def
        partly_sent_campaign_def sample_workflow_env_def sample_batch_env_def BATCH_SIZE_def
        String_or_empty_def batch_eval)

end
